theory Spec2Isabelle
  imports Main "HOL-Library.Word"
begin

unbundle bit_operations_syntax

section \<open>The environment of \<open>CopyFile\<close>: files, handles and the calls of package os\<close>

text \<open>
  \<open>CopyFile\<close> (src/CopyFile.go) is a straight line of calls into Go's packages \<open>os\<close>
  and \<open>io\<close>. Those packages and the kernel behind them are not part of the repository;
  they are modelled here as an explicit world that every call takes and returns:
  \<^item> \<open>names\<close>: the directory entries, a path resolving to an inode number;
  \<^item> \<open>inodes\<close>: the files as the page cache has them (content and mode bits);
  \<^item> \<open>disk\<close>: the files as stable storage has them, written only by \<open>Sync\<close>;
  \<^item> \<open>fds\<close>: the table of open handles;
  \<^item> \<open>umask\<close>: the process's file mode creation mask;
  \<^item> \<open>faults\<close>: what the environment does to the n-th call of the run: \<open>None\<close> lets it
    proceed, \<open>Some e\<close> makes it fail with \<open>e\<close> (permission denied, a missing directory,
    a device error, a full disk);
  \<^item> \<open>rdlens\<close>: how many bytes the n-th call, when it is a read, may return at most
    (minus one), so that short reads are covered;
  \<^item> \<open>trace\<close>: the calls made so far with their results, oldest first.

  Only regular files are modelled: a file is a sequence of bytes with the twelve mode bits
  that \<open>chmod\<close> sets. One process runs at a time, so nothing changes between two calls
  of a run but what the calls themselves change.
\<close>

type_synonym byte = "8 word"
type_synonym FileMode = "32 word"
type_synonym ino = nat
type_synonym fd = nat

datatype errno = ENOENT | EACCES | EBADF | EIO | ENOSPC

text \<open>Go's error values: \<open>*os.PathError{Op, Path, Err}\<close>, \<open>io.EOF\<close>, \<open>io.ErrShortWrite\<close>.\<close>

datatype error = PathError string string errno | EOF | ErrShortWrite

record regfile =
  content :: "byte list"
  st_mode :: "32 word"

record handle =
  h_name :: string
  h_ino :: ino
  h_off :: nat
  h_acc :: "64 word"

record FileInfo =
  fi_size :: nat
  fi_mode :: FileMode

datatype call =
    COpenFile string "64 word" FileMode
  | CStat fd
  | CRead fd
  | CWrite fd "byte list"
  | CChmod string FileMode
  | CSync fd
  | CClose fd

datatype outcome = Failed error | Done | Handle fd | Data "byte list" | Info FileInfo

type_synonym event = "call \<times> outcome"

record world =
  names :: "(string \<times> ino) list"
  inodes :: "ino \<Rightarrow> regfile"
  disk :: "ino \<Rightarrow> regfile"
  fds :: "(fd \<times> handle) list"
  umask :: "32 word"
  faults :: "nat \<Rightarrow> errno option"
  rdlens :: "nat \<Rightarrow> nat"
  trace :: "event list"

subsection \<open>Constants of packages os and syscall (linux)\<close>

definition O_RDONLY :: "64 word" where "O_RDONLY = 0"
definition O_WRONLY :: "64 word" where "O_WRONLY = 1"
definition O_RDWR :: "64 word" where "O_RDWR = 2"
definition O_ACCMODE :: "64 word" where "O_ACCMODE = 3"
definition O_CREATE :: "64 word" where "O_CREATE = 64"
definition O_TRUNC :: "64 word" where "O_TRUNC = 512"

definition ModePerm :: FileMode where "ModePerm = 511"
definition ModeSetuid :: FileMode where "ModeSetuid = push_bit 23 1"
definition ModeSetgid :: FileMode where "ModeSetgid = push_bit 22 1"
definition ModeSticky :: FileMode where "ModeSticky = push_bit 20 1"

definition S_ISUID :: "32 word" where "S_ISUID = 2048"
definition S_ISGID :: "32 word" where "S_ISGID = 1024"
definition S_ISVTX :: "32 word" where "S_ISVTX = 512"

text \<open>The buffer \<open>io.Copy\<close> allocates: 32 * 1024 bytes.\<close>

definition bufsize :: nat where "bufsize = 32768"

text \<open>\<open>os.syscallMode\<close>: the mode bits of a \<open>FileMode\<close> as the kernel takes them.\<close>

definition syscallMode :: "FileMode \<Rightarrow> 32 word" where
  "syscallMode i =
     ((i AND ModePerm)
       OR (if i AND ModeSetuid \<noteq> 0 then S_ISUID else 0)
       OR (if i AND ModeSetgid \<noteq> 0 then S_ISGID else 0)
       OR (if i AND ModeSticky \<noteq> 0 then S_ISVTX else 0))"

text \<open>
  \<open>os.fillFileStatFromSys\<close> on a regular file: the \<open>FileMode\<close> that \<open>Stat\<close> reports for
  the mode bits the kernel keeps.
\<close>

definition fileModeOf :: "32 word \<Rightarrow> FileMode" where
  "fileModeOf m =
     ((m AND 511)
       OR (if m AND S_ISGID \<noteq> 0 then ModeSetgid else 0)
       OR (if m AND S_ISUID \<noteq> 0 then ModeSetuid else 0)
       OR (if m AND S_ISVTX \<noteq> 0 then ModeSticky else 0))"

subsection \<open>Bookkeeping\<close>

primrec maxl :: "nat list \<Rightarrow> nat" where
  "maxl [] = 0"
| "maxl (x # xs) = max x (maxl xs)"

definition fresh_fd :: "world \<Rightarrow> fd" where
  "fresh_fd w = Suc (maxl (map fst (fds w)))"

definition fresh_ino :: "world \<Rightarrow> ino" where
  "fresh_ino w = Suc (maxl (map snd (names w) @ map (\<lambda>p. h_ino (snd p)) (fds w)))"

definition fault :: "world \<Rightarrow> errno option" where
  "fault w = faults w (length (trace w))"

definition emit :: "call \<Rightarrow> outcome \<Rightarrow> world \<Rightarrow> world" where
  "emit c r w = w\<lparr>trace := trace w @ [(c, r)]\<rparr>"

definition set_handle :: "fd \<Rightarrow> handle \<Rightarrow> (fd \<times> handle) list \<Rightarrow> (fd \<times> handle) list" where
  "set_handle f h tab = map (\<lambda>p. if fst p = f then (f, h) else p) tab"

definition del_handle :: "fd \<Rightarrow> (fd \<times> handle) list \<Rightarrow> (fd \<times> handle) list" where
  "del_handle f tab = filter (\<lambda>p. fst p \<noteq> f) tab"

text \<open>
  Writing \<open>bs\<close> at offset \<open>off\<close> of a file: a hole before \<open>off\<close> reads as zeros, bytes
  behind the written range stay.
\<close>

definition pwrite :: "byte list \<Rightarrow> nat \<Rightarrow> byte list \<Rightarrow> byte list" where
  "pwrite c off bs =
     take off c @ replicate (off - length c) 0 @ bs @ drop (off + length bs) c"

subsection \<open>The calls\<close>

text \<open>
  \<open>os.OpenFile(name, flag, perm)\<close>. Of the flags, the access mode, \<open>O_CREATE\<close> and
  \<open>O_TRUNC\<close> are interpreted (the ones \<open>CopyFile\<close> passes). An existing file keeps its
  mode; a new file gets \<open>perm\<close> less the bits of the umask.
\<close>

definition os_OpenFile :: "string \<Rightarrow> 64 word \<Rightarrow> FileMode \<Rightarrow> world \<Rightarrow> (error + fd) \<times> world" where
  "os_OpenFile nm flag perm w =
     (let c = COpenFile nm flag perm;
          f = fresh_fd w;
          h = \<lparr>h_name = nm, h_ino = 0, h_off = 0, h_acc = flag AND O_ACCMODE\<rparr>
      in case fault w of
           Some e \<Rightarrow> (Inl (PathError ''open'' nm e), emit c (Failed (PathError ''open'' nm e)) w)
         | None \<Rightarrow>
             (case map_of (names w) nm of
                None \<Rightarrow>
                  if flag AND O_CREATE = 0
                  then (Inl (PathError ''open'' nm ENOENT),
                        emit c (Failed (PathError ''open'' nm ENOENT)) w)
                  else
                    (let i = fresh_ino w
                     in (Inr f,
                         emit c (Handle f)
                           (w\<lparr>names := (nm, i) # names w,
                              inodes := (inodes w)
                                (i := \<lparr>content = [],
                                       st_mode = syscallMode perm AND NOT (umask w) AND 4095\<rparr>),
                              fds := (f, h\<lparr>h_ino := i\<rparr>) # fds w\<rparr>)))
              | Some i \<Rightarrow>
                  (let w1 = (if flag AND O_TRUNC \<noteq> 0 \<and> flag AND O_ACCMODE \<noteq> O_RDONLY
                             then w\<lparr>inodes := (inodes w)(i := (inodes w i)\<lparr>content := []\<rparr>)\<rparr>
                             else w)
                   in (Inr f,
                       emit c (Handle f) (w1\<lparr>fds := (f, h\<lparr>h_ino := i\<rparr>) # fds w1\<rparr>)))))"

text \<open>\<open>os.Open(name)\<close> is \<open>OpenFile(name, O_RDONLY, 0)\<close>.\<close>

definition os_Open :: "string \<Rightarrow> world \<Rightarrow> (error + fd) \<times> world" where
  "os_Open nm w = os_OpenFile nm O_RDONLY 0 w"

text \<open>\<open>(*File).Stat\<close>: size and mode of the open file.\<close>

definition File_Stat :: "fd \<Rightarrow> world \<Rightarrow> (error + FileInfo) \<times> world" where
  "File_Stat f w =
     (case map_of (fds w) f of
        None \<Rightarrow> (Inl (PathError ''stat'' [] EBADF), emit (CStat f) (Failed (PathError ''stat'' [] EBADF)) w)
      | Some h \<Rightarrow>
          (case fault w of
             Some e \<Rightarrow> (Inl (PathError ''stat'' (h_name h) e),
                        emit (CStat f) (Failed (PathError ''stat'' (h_name h) e)) w)
           | None \<Rightarrow>
               (let fi = \<lparr>fi_size = length (content (inodes w (h_ino h))),
                          fi_mode = fileModeOf (st_mode (inodes w (h_ino h)))\<rparr>
                in (Inr fi, emit (CStat f) (Info fi) w))))"

text \<open>
  \<open>(*File).Read\<close> into a buffer of \<open>n\<close> bytes: the bytes read and the error; \<open>io.EOF\<close> with
  no bytes at the end of the file.
\<close>

definition File_Read :: "fd \<Rightarrow> nat \<Rightarrow> world \<Rightarrow> (byte list \<times> error option) \<times> world" where
  "File_Read f n w =
     (case map_of (fds w) f of
        None \<Rightarrow> (([], Some (PathError ''read'' [] EBADF)),
                 emit (CRead f) (Failed (PathError ''read'' [] EBADF)) w)
      | Some h \<Rightarrow>
          if h_acc h = O_WRONLY
          then (([], Some (PathError ''read'' (h_name h) EBADF)),
                emit (CRead f) (Failed (PathError ''read'' (h_name h) EBADF)) w)
          else
            (case fault w of
               Some e \<Rightarrow> (([], Some (PathError ''read'' (h_name h) e)),
                          emit (CRead f) (Failed (PathError ''read'' (h_name h) e)) w)
             | None \<Rightarrow>
                 (let k = min n (Suc (rdlens w (length (trace w))));
                      bs = take k (drop (h_off h) (content (inodes w (h_ino h))))
                  in ((bs, if bs = [] then Some EOF else None),
                      emit (CRead f) (Data bs)
                        (w\<lparr>fds := set_handle f (h\<lparr>h_off := h_off h + length bs\<rparr>) (fds w)\<rparr>)))))"

text \<open>\<open>(*File).Write\<close>: all of \<open>bs\<close> at the handle's offset, or nothing and the error.\<close>

definition File_Write :: "fd \<Rightarrow> byte list \<Rightarrow> world \<Rightarrow> (nat \<times> error option) \<times> world" where
  "File_Write f bs w =
     (case map_of (fds w) f of
        None \<Rightarrow> ((0, Some (PathError ''write'' [] EBADF)),
                 emit (CWrite f bs) (Failed (PathError ''write'' [] EBADF)) w)
      | Some h \<Rightarrow>
          if h_acc h = O_RDONLY
          then ((0, Some (PathError ''write'' (h_name h) EBADF)),
                emit (CWrite f bs) (Failed (PathError ''write'' (h_name h) EBADF)) w)
          else
            (case fault w of
               Some e \<Rightarrow> ((0, Some (PathError ''write'' (h_name h) e)),
                          emit (CWrite f bs) (Failed (PathError ''write'' (h_name h) e)) w)
             | None \<Rightarrow>
                 (let i = h_ino h;
                      c' = pwrite (content (inodes w i)) (h_off h) bs
                  in ((length bs, None),
                      emit (CWrite f bs) Done
                        (w\<lparr>inodes := (inodes w)(i := (inodes w i)\<lparr>content := c'\<rparr>),
                           fds := set_handle f (h\<lparr>h_off := h_off h + length bs\<rparr>) (fds w)\<rparr>)))))"

text \<open>
  \<open>io.Copy(dst, src)\<close>, the loop of \<open>io.copyBuffer\<close>: read a buffer, write what was read,
  stop at the first error or at \<open>io.EOF\<close> (which is not reported). It returns the number
  of bytes written and the error. The loop is not structurally recursive (a reader that
  never reaches the end of its file keeps it running), so it is a partial function with
  \<open>None\<close> for a run that does not return. Between two files the library may hand the
  copy to the kernel in larger pieces; the reads and writes below stand for those pieces
  too, with \<open>rdlens\<close> choosing their sizes.
\<close>

partial_function (option) copyBuffer ::
    "fd \<Rightarrow> fd \<Rightarrow> nat \<Rightarrow> world \<Rightarrow> ((nat \<times> error option) \<times> world) option" where
  "copyBuffer dst src written w =
     (case File_Read src bufsize w of
        ((bs, er), w1) \<Rightarrow>
          if bs \<noteq> []
          then
            (case File_Write dst bs w1 of
               ((nw, ew), w2) \<Rightarrow>
                 if ew \<noteq> None then Some ((written + nw, ew), w2)
                 else if length bs \<noteq> nw then Some ((written + nw, Some ErrShortWrite), w2)
                 else if er \<noteq> None
                 then Some ((written + nw, if er = Some EOF then None else er), w2)
                 else copyBuffer dst src (written + nw) w2)
          else if er \<noteq> None
          then Some ((written, if er = Some EOF then None else er), w1)
          else copyBuffer dst src written w1)"

declare copyBuffer.simps [code]

definition io_Copy :: "fd \<Rightarrow> fd \<Rightarrow> world \<Rightarrow> ((nat \<times> error option) \<times> world) option" where
  "io_Copy dst src w = copyBuffer dst src 0 w"

text \<open>\<open>os.Chmod(name, mode)\<close>: resolves the path again and sets the file's mode bits.\<close>

definition os_Chmod :: "string \<Rightarrow> FileMode \<Rightarrow> world \<Rightarrow> error option \<times> world" where
  "os_Chmod nm mode w =
     (case fault w of
        Some e \<Rightarrow> (Some (PathError ''chmod'' nm e),
                   emit (CChmod nm mode) (Failed (PathError ''chmod'' nm e)) w)
      | None \<Rightarrow>
          (case map_of (names w) nm of
             None \<Rightarrow> (Some (PathError ''chmod'' nm ENOENT),
                      emit (CChmod nm mode) (Failed (PathError ''chmod'' nm ENOENT)) w)
           | Some i \<Rightarrow>
               (None,
                emit (CChmod nm mode) Done
                  (w\<lparr>inodes := (inodes w)
                       (i := (inodes w i)\<lparr>st_mode := syscallMode mode AND 4095\<rparr>)\<rparr>))))"

text \<open>\<open>(*File).Sync\<close>: the file, content and mode, reaches stable storage.\<close>

definition File_Sync :: "fd \<Rightarrow> world \<Rightarrow> error option \<times> world" where
  "File_Sync f w =
     (case map_of (fds w) f of
        None \<Rightarrow> (Some (PathError ''sync'' [] EBADF),
                 emit (CSync f) (Failed (PathError ''sync'' [] EBADF)) w)
      | Some h \<Rightarrow>
          (case fault w of
             Some e \<Rightarrow> (Some (PathError ''sync'' (h_name h) e),
                        emit (CSync f) (Failed (PathError ''sync'' (h_name h) e)) w)
           | None \<Rightarrow>
               (None,
                emit (CSync f) Done
                  (w\<lparr>disk := (disk w)(h_ino h := inodes w (h_ino h))\<rparr>))))"

text \<open>
  \<open>(*File).Close\<close>: the handle leaves the table whether or not the kernel reports an
  error for the close.
\<close>

definition File_Close :: "fd \<Rightarrow> world \<Rightarrow> error option \<times> world" where
  "File_Close f w =
     (case map_of (fds w) f of
        None \<Rightarrow> (Some (PathError ''close'' [] EBADF),
                 emit (CClose f) (Failed (PathError ''close'' [] EBADF)) w)
      | Some h \<Rightarrow>
          (case fault w of
             Some e \<Rightarrow> (Some (PathError ''close'' (h_name h) e),
                        emit (CClose f) (Failed (PathError ''close'' (h_name h) e))
                          (w\<lparr>fds := del_handle f (fds w)\<rparr>))
           | None \<Rightarrow> (None, emit (CClose f) Done (w\<lparr>fds := del_handle f (fds w)\<rparr>))))"

section \<open>\<open>CopyFile\<close>\<close>

text \<open>
  \<open>defer f.Close()\<close>: when the rest of the function has produced its result, the handle
  is closed and what \<open>Close\<close> returns is dropped; the result stands.
\<close>

definition deferClose ::
    "fd \<Rightarrow> (error option \<times> world) option \<Rightarrow> (error option \<times> world) option" where
  "deferClose f rest =
     (case rest of
        None \<Rightarrow> None
      | Some (r, w) \<Rightarrow> Some (r, snd (File_Close f w)))"

definition CopyFile :: "string \<Rightarrow> string \<Rightarrow> world \<Rightarrow> (error option \<times> world) option" where
  "CopyFile srcPath dstPath w =
     (case os_Open srcPath w of
        (Inl err, w1) \<Rightarrow> Some (Some err, w1)
      | (Inr src, w1) \<Rightarrow>
          deferClose src
            (case File_Stat src w1 of
               (Inl err, w2) \<Rightarrow> Some (Some err, w2)
             | (Inr srcInfo, w2) \<Rightarrow>
                 (case os_OpenFile dstPath (O_CREATE OR O_WRONLY OR O_TRUNC) (fi_mode srcInfo) w2 of
                    (Inl err, w3) \<Rightarrow> Some (Some err, w3)
                  | (Inr dst, w3) \<Rightarrow>
                      deferClose dst
                        (case io_Copy dst src w3 of
                           None \<Rightarrow> None
                         | Some ((_, Some err), w4) \<Rightarrow> Some (Some err, w4)
                         | Some ((_, None), w4) \<Rightarrow>
                             (case os_Chmod dstPath (fi_mode srcInfo) w4 of
                                (Some err, w5) \<Rightarrow> Some (Some err, w5)
                              | (None, w5) \<Rightarrow>
                                  (case File_Sync dst w5 of
                                     (Some err, w6) \<Rightarrow> Some (Some err, w6)
                                   | (None, w6) \<Rightarrow> Some (None, w6)))))))"

section \<open>Traces and frames\<close>

text \<open>
  The calls that the loop of \<open>io.Copy\<close> can leave in the trace, with the error it
  returns: chunks read and written, ended by the read that meets the end of the file, by
  a read that fails, or by a write that fails.
\<close>

inductive copy_events :: "fd \<Rightarrow> fd \<Rightarrow> error option \<Rightarrow> event list \<Rightarrow> bool"
  for dst :: fd and src :: fd where
  at_eof: "copy_events dst src None [(CRead src, Data [])]"
| read_failed: "copy_events dst src (Some e) [(CRead src, Failed e)]"
| write_failed: "bs \<noteq> [] \<Longrightarrow>
     copy_events dst src (Some e) [(CRead src, Data bs), (CWrite dst bs, Failed e)]"
| chunk: "bs \<noteq> [] \<Longrightarrow> copy_events dst src r evs \<Longrightarrow>
     copy_events dst src r ((CRead src, Data bs) # (CWrite dst bs, Done) # evs)"

text \<open>
  What the loop leaves alone: names, stable storage and the environment; of the handles,
  everything but the offsets of the two it uses; of the files, everything but the content
  of the one it writes.
\<close>

definition hkey :: "handle \<Rightarrow> string \<times> ino \<times> 64 word" where
  "hkey h = (h_name h, h_ino h, h_acc h)"

definition copy_frame :: "fd \<Rightarrow> fd \<Rightarrow> world \<Rightarrow> world \<Rightarrow> bool" where
  "copy_frame dst src w w' \<longleftrightarrow>
     names w' = names w \<and> disk w' = disk w \<and> umask w' = umask w \<and>
     faults w' = faults w \<and> rdlens w' = rdlens w \<and>
     del_handle src (del_handle dst (fds w')) = del_handle src (del_handle dst (fds w)) \<and>
     (\<forall>f. map_option hkey (map_of (fds w') f) = map_option hkey (map_of (fds w) f)) \<and>
     (\<forall>i. st_mode (inodes w' i) = st_mode (inodes w i)) \<and>
     (\<forall>i. map_option h_ino (map_of (fds w) dst) \<noteq> Some i \<longrightarrow> inodes w' i = inodes w i)"

text \<open>How a run ends after the byte copy: the calls made and the results.\<close>

inductive finish :: "string \<Rightarrow> FileMode \<Rightarrow> fd \<Rightarrow> error option \<Rightarrow> error option \<Rightarrow> event list \<Rightarrow> bool"
  for d :: string and m :: FileMode and dst :: fd where
  copy_err: "finish d m dst (Some e) (Some e) []"
| chmod_err: "finish d m dst None (Some e) [(CChmod d m, Failed e)]"
| sync_err: "finish d m dst None (Some e) [(CChmod d m, Done), (CSync dst, Failed e)]"
| all_ok: "finish d m dst None None [(CChmod d m, Done), (CSync dst, Done)]"

text \<open>What a run leaves behind once the destination has been opened.\<close>

definition dst_opened :: "string \<Rightarrow> string \<Rightarrow> world \<Rightarrow> error option \<Rightarrow> world \<Rightarrow> bool" where
  "dst_opened s d w r w' \<longleftrightarrow>
     (\<exists>si di fi src dst evs r4 post c2 c1.
        src = fresh_fd w \<and> dst = Suc src \<and>
        map_of (names w) s = Some si \<and>
        fi_mode fi = fileModeOf (st_mode (inodes w si)) \<and>
        map_of (names w') d = Some di \<and>
        (map_of (names w) d = None \<and> names w' = (d, di) # names w \<and> di \<noteq> si \<and>
           di \<notin> snd ` set (names w) \<or>
         map_of (names w) d = Some di \<and> names w' = names w) \<and>
        (\<forall>i. i \<noteq> di \<longrightarrow> inodes w' i = inodes w i \<and> disk w' i = disk w i) \<and>
        fds w' = fds w \<and> umask w' = umask w \<and> faults w' = faults w \<and> rdlens w' = rdlens w \<and>
        trace w' = trace w @
          [(COpenFile s O_RDONLY 0, Handle src), (CStat src, Info fi),
           (COpenFile d (O_CREATE OR O_WRONLY OR O_TRUNC) (fi_mode fi), Handle dst)]
          @ evs @ post @ [(CClose dst, c2), (CClose src, c1)] \<and>
        copy_events dst src r4 evs \<and> finish d (fi_mode fi) dst r4 r post \<and>
        (r4 = None \<longrightarrow> content (inodes w' di) = (if si = di then [] else content (inodes w si))) \<and>
        (si = di \<longrightarrow> content (inodes w' di) = [] \<and> (\<exists>out. evs = [(CRead src, out)])) \<and>
        ((CChmod d (fi_mode fi), Done) \<in> set post \<longrightarrow>
           st_mode (inodes w' di) = syscallMode (fi_mode fi) AND 4095) \<and>
        (r = None \<longrightarrow> disk w' di = inodes w' di))"

section \<open>Observations\<close>

text \<open>The calls made between two worlds of one run, oldest first.\<close>

definition issued :: "world \<Rightarrow> world \<Rightarrow> event list" where
  "issued w w' = drop (length (trace w)) (trace w')"

text \<open>The content and the mode bits of the file a path resolves to.\<close>

definition content_at :: "string \<Rightarrow> world \<Rightarrow> byte list option" where
  "content_at p w = map_option (\<lambda>i. content (inodes w i)) (map_of (names w) p)"

definition mode_at :: "string \<Rightarrow> world \<Rightarrow> 32 word option" where
  "mode_at p w = map_option (\<lambda>i. st_mode (inodes w i)) (map_of (names w) p)"

text \<open>Reading the trace: which calls are closes, which failed, which step a call belongs to.\<close>

fun is_close :: "call \<Rightarrow> bool" where
  "is_close (CClose f) = True"
| "is_close _ = False"

fun failed :: "outcome \<Rightarrow> bool" where
  "failed (Failed e) = True"
| "failed _ = False"

text \<open>
  The steps of the copy, numbered in the order of the source: open the source (0), stat it
  (1), open the destination (2), copy (3), set the mode (4), flush (5); closing is 6.
\<close>

fun phase :: "call \<Rightarrow> nat" where
  "phase (COpenFile p flag m) = (if flag AND O_ACCMODE = O_RDONLY then 0 else 2)"
| "phase (CStat f) = 1"
| "phase (CRead f) = 3"
| "phase (CWrite f bs) = 3"
| "phase (CChmod p m) = 4"
| "phase (CSync f) = 5"
| "phase (CClose f) = 6"

fun opens_for_write :: "call \<Rightarrow> bool" where
  "opens_for_write (COpenFile p flag m) = (flag AND O_ACCMODE \<noteq> O_RDONLY)"
| "opens_for_write _ = False"

definition steps :: "event list \<Rightarrow> event list" where
  "steps evs = filter (\<lambda>ev. \<not> is_close (fst ev)) evs"

definition closes :: "event list \<Rightarrow> event list" where
  "closes evs = filter (\<lambda>ev. is_close (fst ev)) evs"

text \<open>
  The handles a trace leaves open: a call that returns a handle adds it, a close of a
  handle removes it.
\<close>

primrec unclosed :: "fd list \<Rightarrow> event list \<Rightarrow> fd list" where
  "unclosed held [] = held"
| "unclosed held (ev # evs) =
     unclosed
       (case fst ev of
          CClose f \<Rightarrow> removeAll f held
        | _ \<Rightarrow> (case snd ev of Handle f \<Rightarrow> f # held | _ \<Rightarrow> held))
       evs"

text \<open>
  A world to run examples in: \<open>source.txt\<close> holds \<open>hello\<close> with mode 0644, \<open>old.txt\<close>
  holds seven bytes with mode 0600, the umask is 022, no call fails, and a read returns
  two bytes at most.
\<close>

definition demo_world :: world where
  "demo_world =
     \<lparr>names = [(''source.txt'', 1), (''old.txt'', 2)],
      inodes = (\<lambda>_. \<lparr>content = [], st_mode = 0\<rparr>)
        (1 := \<lparr>content = [104, 101, 108, 108, 111], st_mode = 420\<rparr>,
         2 := \<lparr>content = [1, 2, 3, 4, 5, 6, 7], st_mode = 384\<rparr>),
      disk = (\<lambda>_. \<lparr>content = [], st_mode = 0\<rparr>),
      fds = [], umask = 18, faults = (\<lambda>_. None), rdlens = (\<lambda>_. 1), trace = []\<rparr>"

text \<open>The same world with the n-th call of the run made to fail, for the listed n.\<close>

definition with_faults :: "(nat \<times> errno) list \<Rightarrow> world" where
  "with_faults fs = demo_world\<lparr>faults := map_of fs\<rparr>"

section \<open>Mode bits\<close>

lemma n511: "(511::32 word) = mask 9" by (simp add: mask_eq_exp_minus_1)
lemma n4095: "(4095::32 word) = mask 12" by (simp add: mask_eq_exp_minus_1)

lemma mode_consts:
  "ModePerm = mask 9" "ModeSetuid = 2 ^ 23" "ModeSetgid = 2 ^ 22" "ModeSticky = 2 ^ 20"
  "S_ISUID = 2 ^ 11" "S_ISGID = 2 ^ 10" "S_ISVTX = 2 ^ 9"
  by (simp_all add: ModePerm_def ModeSetuid_def ModeSetgid_def ModeSticky_def S_ISUID_def
      S_ISGID_def S_ISVTX_def mask_eq_exp_minus_1)

lemma test_bit: "(i AND 2 ^ k \<noteq> 0) = bit i k" for i :: "32 word"
  using and_exp_eq_0_iff_not_bit [of i k] by blast

lemma bit_pow: "bit (2 ^ k :: 32 word) n = (k < 32 \<and> n = k)"
  using bit_exp_iff [of k n, where ?'a = "32 word"] by auto

lemma fileModeOf_alt:
  "fileModeOf m = (m AND mask 9) OR (if bit m 10 then 2 ^ 22 else 0)
      OR (if bit m 11 then 2 ^ 23 else 0) OR (if bit m 9 then 2 ^ 20 else 0)"
  unfolding fileModeOf_def mode_consts test_bit n511 ..

lemma syscallMode_alt:
  "syscallMode i = (i AND mask 9) OR (if bit i 23 then 2 ^ 11 else 0)
      OR (if bit i 22 then 2 ^ 10 else 0) OR (if bit i 20 then 2 ^ 9 else 0)"
  unfolding syscallMode_def mode_consts test_bit ..

lemma bit_if: "bit (if c then a else 0 :: 32 word) n = (c \<and> bit a n)"
  by simp

lemma bit_fileModeOf:
  "bit (fileModeOf m) n \<longleftrightarrow>
     (n < 9 \<and> bit m n) \<or> (n = 22 \<and> bit m 10) \<or> (n = 23 \<and> bit m 11) \<or> (n = 20 \<and> bit m 9)"
  unfolding fileModeOf_alt bit_or_iff bit_and_iff bit_mask_iff bit_if bit_pow
  by (auto dest: bit_imp_le_length)

lemma bit_syscallMode:
  "bit (syscallMode i) n \<longleftrightarrow>
     (n < 9 \<and> bit i n) \<or> (n = 11 \<and> bit i 23) \<or> (n = 10 \<and> bit i 22) \<or> (n = 9 \<and> bit i 20)"
  unfolding syscallMode_alt bit_or_iff bit_and_iff bit_mask_iff bit_if bit_pow
  by (auto dest: bit_imp_le_length)

lemma below12: "n < 12 \<Longrightarrow> n < 9 \<or> n = 9 \<or> n = 10 \<or> n = (11::nat)"
  by arith

lemma syscallMode_fileModeOf: "syscallMode (fileModeOf m) AND 4095 = m AND 4095"
proof (rule bit_eqI)
  fix n
  show "bit (syscallMode (fileModeOf m) AND 4095) n = bit (m AND 4095) n"
    unfolding n4095 bit_and_iff bit_mask_iff bit_syscallMode bit_fileModeOf
    using below12 [of n] by (auto dest: bit_imp_le_length)
qed

lemma fileModeOf_low: "fileModeOf (m AND 4095) = fileModeOf m"
proof (rule bit_eqI)
  fix n
  show "bit (fileModeOf (m AND 4095)) n = bit (fileModeOf m) n"
    unfolding n4095 bit_fileModeOf bit_and_iff bit_mask_iff by auto
qed

section \<open>Handles and the calls, case by case\<close>

lemma map_of_set_handle:
  "map_of (set_handle f h tab) g =
     (if g = f then (case map_of tab f of None \<Rightarrow> None | Some _ \<Rightarrow> Some h) else map_of tab g)"
  by (induction tab) (auto simp: set_handle_def)

lemma del_set_handle: "del_handle f (set_handle f h tab) = del_handle f tab"
  by (induction tab) (auto simp: set_handle_def del_handle_def)

lemma del_handle_commute: "del_handle f (del_handle g tab) = del_handle g (del_handle f tab)"
  by (induction tab) (auto simp: del_handle_def)

lemma maxl_ge: "x \<in> set xs \<Longrightarrow> x \<le> maxl xs"
  by (induction xs) auto

lemma del_handle_fresh: "maxl (map fst tab) < f \<Longrightarrow> del_handle f tab = tab"
proof -
  assume a: "maxl (map fst tab) < f"
  have "\<forall>p \<in> set tab. fst p \<noteq> f"
  proof
    fix p assume "p \<in> set tab"
    then have "fst p \<le> maxl (map fst tab)" by (intro maxl_ge) simp
    with a show "fst p \<noteq> f" by simp
  qed
  then show ?thesis by (simp add: del_handle_def)
qed

lemma map_of_fresh: "maxl (map fst tab) < f \<Longrightarrow> map_of tab f = None"
proof -
  assume a: "maxl (map fst tab) < f"
  have "f \<notin> set (map fst tab)" using maxl_ge [of f "map fst tab"] a by auto
  then show ?thesis by (simp add: map_of_eq_None_iff)
qed

lemma File_Read_cases:
  assumes "File_Read f n w = ((bs, er), w1)"
  shows "(\<exists>e. bs = [] \<and> er = Some e \<and> e \<noteq> EOF \<and> w1 = emit (CRead f) (Failed e) w) \<or>
     (\<exists>h. map_of (fds w) f = Some h \<and> h_acc h \<noteq> O_WRONLY \<and> fault w = None \<and>
        bs = take (min n (Suc (rdlens w (length (trace w)))))
               (drop (h_off h) (content (inodes w (h_ino h)))) \<and>
        er = (if bs = [] then Some EOF else None) \<and>
        w1 = emit (CRead f) (Data bs)
               (w\<lparr>fds := set_handle f (h\<lparr>h_off := h_off h + length bs\<rparr>) (fds w)\<rparr>))"
  using assms by (auto simp: File_Read_def Let_def split: option.splits if_splits)

lemma File_Write_cases:
  assumes "File_Write f bs w = ((nw, ew), w1)"
  shows "(\<exists>e. nw = 0 \<and> ew = Some e \<and> w1 = emit (CWrite f bs) (Failed e) w) \<or>
     (\<exists>h. map_of (fds w) f = Some h \<and> h_acc h \<noteq> O_RDONLY \<and> fault w = None \<and>
        nw = length bs \<and> ew = None \<and>
        w1 = emit (CWrite f bs) Done
               (w\<lparr>inodes := (inodes w)
                    (h_ino h := (inodes w (h_ino h))
                       \<lparr>content := pwrite (content (inodes w (h_ino h))) (h_off h) bs\<rparr>),
                  fds := set_handle f (h\<lparr>h_off := h_off h + length bs\<rparr>) (fds w)\<rparr>))"
  using assms by (auto simp: File_Write_def Let_def split: option.splits if_splits)

lemma copyBuffer_trace:
  assumes "copyBuffer dst src n w = Some res"
  shows "\<exists>evs. trace (snd res) = trace w @ evs \<and> copy_events dst src (snd (fst res)) evs"
proof (rule copyBuffer.raw_induct
    [where P = "\<lambda>dst src n w res.
       \<exists>evs. trace (snd res) = trace w @ evs \<and> copy_events dst src (snd (fst res)) evs",
     OF _ assms], goal_cases)
  case (1 cb dst src n w res)
  note IH = 1(1) and body = 1(2)
  obtain bs er w1 where rd: "File_Read src bufsize w = ((bs, er), w1)"
    by (metis prod.exhaust)
  show ?case
  proof (cases "bs = []")
    case True
    with rd File_Read_cases [OF rd] body show ?thesis
      by (auto simp: emit_def intro: copy_events.intros split: if_splits)
  next
    case False
    obtain nw ew w2 where wr: "File_Write dst bs w1 = ((nw, ew), w2)"
      by (metis prod.exhaust)
    from False File_Read_cases [OF rd] have er: "er = None"
      and t1: "trace w1 = trace w @ [(CRead src, Data bs)]"
      by (auto simp: emit_def)
    from File_Write_cases [OF wr] show ?thesis
    proof (elim disjE exE conjE)
      fix e assume "nw = 0" "ew = Some e" "w2 = emit (CWrite dst bs) (Failed e) w1"
      with rd wr False body t1 show ?thesis
        by (auto simp: emit_def intro: copy_events.intros)
    next
      fix h assume a: "nw = length bs" "ew = None"
        "w2 = emit (CWrite dst bs) Done
               (w1\<lparr>inodes := (inodes w1)
                    (h_ino h := (inodes w1 (h_ino h))
                       \<lparr>content := pwrite (content (inodes w1 (h_ino h))) (h_off h) bs\<rparr>),
                  fds := set_handle dst (h\<lparr>h_off := h_off h + length bs\<rparr>) (fds w1)\<rparr>)"
      with rd wr False er body have rec: "cb dst src (n + nw) w2 = Some res"
        by simp
      from a t1 have t2: "trace w2 = trace w @ [(CRead src, Data bs), (CWrite dst bs, Done)]"
        by (simp add: emit_def)
      from IH [OF rec] obtain evs where
        "trace (snd res) = trace w2 @ evs" "copy_events dst src (snd (fst res)) evs" by blast
      with t2 False show ?thesis
        by (auto intro: copy_events.chunk)
    qed
  qed
qed


lemma copy_frame_emit: "copy_frame dst src w (emit c r w)"
  by (simp add: copy_frame_def emit_def)

lemma copy_frame_trans:
  assumes "copy_frame dst src w w1" "copy_frame dst src w1 w2"
  shows "copy_frame dst src w w2"
proof -
  have k: "map_option h_ino (map_of (fds w1) dst) = map_option h_ino (map_of (fds w) dst)"
  proof -
    from assms(1) have "map_option hkey (map_of (fds w1) dst) = map_option hkey (map_of (fds w) dst)"
      by (simp add: copy_frame_def)
    then show ?thesis
      by (cases "map_of (fds w1) dst"; cases "map_of (fds w) dst") (auto simp: hkey_def)
  qed
  from assms show ?thesis
    unfolding copy_frame_def k by (metis (no_types, lifting) k)
qed

lemma File_Read_frame:
  assumes "File_Read src n w = (x, w1)"
  shows "copy_frame dst src w w1"
proof -
  obtain bs er where x: "x = (bs, er)" by (cases x)
  from File_Read_cases [OF assms [unfolded x]] show ?thesis
  proof (elim disjE exE conjE)
    fix e assume "w1 = emit (CRead src) (Failed e) w"
    then show ?thesis by (simp add: copy_frame_emit)
  next
    fix h assume h: "map_of (fds w) src = Some h"
      and w1: "w1 = emit (CRead src) (Data bs)
               (w\<lparr>fds := set_handle src (h\<lparr>h_off := h_off h + length bs\<rparr>) (fds w)\<rparr>)"
    show ?thesis
      unfolding copy_frame_def w1 emit_def using h
      by (simp add: del_set_handle del_handle_commute [of src] map_of_set_handle hkey_def)
  qed
qed

lemma File_Write_frame:
  assumes "File_Write dst bs w = (x, w1)"
  shows "copy_frame dst src w w1"
proof -
  obtain nw ew where x: "x = (nw, ew)" by (cases x)
  from File_Write_cases [OF assms [unfolded x]] show ?thesis
  proof (elim disjE exE conjE)
    fix e assume "w1 = emit (CWrite dst bs) (Failed e) w"
    then show ?thesis by (simp add: copy_frame_emit)
  next
    fix h assume h: "map_of (fds w) dst = Some h"
      and w1: "w1 = emit (CWrite dst bs) Done
               (w\<lparr>inodes := (inodes w)
                    (h_ino h := (inodes w (h_ino h))
                       \<lparr>content := pwrite (content (inodes w (h_ino h))) (h_off h) bs\<rparr>),
                  fds := set_handle dst (h\<lparr>h_off := h_off h + length bs\<rparr>) (fds w)\<rparr>)"
    show ?thesis
      unfolding copy_frame_def w1 emit_def using h
      by (simp add: del_set_handle map_of_set_handle hkey_def)
  qed
qed

lemma copyBuffer_frame:
  assumes "copyBuffer dst src n w = Some res"
  shows "copy_frame dst src w (snd res)"
proof (rule copyBuffer.raw_induct
    [where P = "\<lambda>dst src n w res. copy_frame dst src w (snd res)", OF _ assms], goal_cases)
  case (1 cb dst src n w res)
  note IH = 1(1) and body = 1(2)
  obtain bs er w1 where rd: "File_Read src bufsize w = ((bs, er), w1)"
    by (metis prod.exhaust)
  note f1 = File_Read_frame [OF rd, of dst]
  show ?case
  proof (cases "bs = []")
    case True
    have "er \<noteq> None" using File_Read_cases [OF rd] True by auto
    with True rd body have "snd res = w1" by (auto split: if_splits)
    with f1 show ?thesis by simp
  next
    case False
    obtain nw ew w2 where wr: "File_Write dst bs w1 = ((nw, ew), w2)"
      by (metis prod.exhaust)
    note f2 = copy_frame_trans [OF f1 File_Write_frame [OF wr, of src]]
    from False rd wr body have "snd res = w2 \<or> cb dst src (n + nw) w2 = Some res"
      by (auto split: if_splits)
    then show ?thesis
    proof
      assume "snd res = w2" with f2 show ?thesis by simp
    next
      assume "cb dst src (n + nw) w2 = Some res"
      from IH [OF this] f2 show ?thesis by (rule copy_frame_trans [rotated])
    qed
  qed
qed

lemma pwrite_append: "pwrite c (length c) bs = c @ bs"
  by (simp add: pwrite_def)

lemma take_drop_self: "take k ys @ drop (length (take k ys)) ys = ys"
  by (cases "k \<le> length ys") (simp_all add: min_def)

lemma take_drop_chunk:
  "take k (drop off cs) @ drop (off + length (take k (drop off cs))) cs = drop off cs"
proof -
  have "drop (off + length (take k (drop off cs))) cs
      = drop (length (take k (drop off cs))) (drop off cs)"
    by (simp add: add.commute)
  then show ?thesis by (simp only: take_drop_self)
qed

lemma copyBuffer_returns:
  assumes "map_of (fds w) src = Some sh" "map_of (fds w) dst = Some dh" "src \<noteq> dst"
    "h_ino sh \<noteq> h_ino dh \<or> length (content (inodes w (h_ino sh))) \<le> h_off sh"
    "h_off dh = length (content (inodes w (h_ino dh)))"
  shows "\<exists>n' r w'. copyBuffer dst src n w = Some ((n', r), w') \<and>
      (r = None \<longrightarrow> content (inodes w' (h_ino dh))
          = content (inodes w (h_ino dh)) @ drop (h_off sh) (content (inodes w (h_ino sh))))"
  using assms
proof (induction "length (content (inodes w (h_ino sh))) - h_off sh"
    arbitrary: w n sh dh rule: less_induct)
  case less
  let ?cs = "content (inodes w (h_ino sh))"
  let ?cd = "content (inodes w (h_ino dh))"
  obtain bs er w1 where rd: "File_Read src bufsize w = ((bs, er), w1)"
    by (metis prod.exhaust)
  from File_Read_cases [OF rd] show ?case
  proof (elim disjE exE conjE)
    fix e assume "bs = []" "er = Some e" "e \<noteq> EOF"
    with rd show ?thesis by (subst copyBuffer.simps) simp
  next
    fix h assume h: "map_of (fds w) src = Some h"
      and bs: "bs = take (min bufsize (Suc (rdlens w (length (trace w)))))
                 (drop (h_off h) (content (inodes w (h_ino h))))"
      and er: "er = (if bs = [] then Some EOF else None)"
      and w1: "w1 = emit (CRead src) (Data bs)
               (w\<lparr>fds := set_handle src (h\<lparr>h_off := h_off h + length bs\<rparr>) (fds w)\<rparr>)"
    from h less.prems(1) have hh: "h = sh" by simp
    show ?thesis
    proof (cases "bs = []")
      case True
      with bs hh have "drop (h_off sh) ?cs = []" by (simp add: bufsize_def)
      moreover have "inodes w1 = inodes w" by (simp add: w1 emit_def)
      ultimately show ?thesis using True rd er by (subst copyBuffer.simps) simp
    next
      case False
      with bs hh have lt: "h_off sh < length ?cs" by (cases "h_off sh < length ?cs") auto
      with less.prems(4) have ne: "h_ino sh \<noteq> h_ino dh" by simp
      obtain nw ew w2 where wr: "File_Write dst bs w1 = ((nw, ew), w2)"
        by (metis prod.exhaust)
      have d1: "map_of (fds w1) dst = Some dh"
        using less.prems(2,3) by (simp add: w1 emit_def map_of_set_handle)
      from File_Write_cases [OF wr] show ?thesis
      proof (elim disjE exE conjE)
        fix e assume "nw = 0" "ew = Some e"
        with rd wr False show ?thesis by (subst copyBuffer.simps) simp
      next
        fix g assume g: "map_of (fds w1) dst = Some g" and nw: "nw = length bs" "ew = None"
          and w2: "w2 = emit (CWrite dst bs) Done
               (w1\<lparr>inodes := (inodes w1)
                    (h_ino g := (inodes w1 (h_ino g))
                       \<lparr>content := pwrite (content (inodes w1 (h_ino g))) (h_off g) bs\<rparr>),
                  fds := set_handle dst (g\<lparr>h_off := h_off g + length bs\<rparr>) (fds w1)\<rparr>)"
        from g d1 have gg: "g = dh" by simp
        let ?sh' = "sh\<lparr>h_off := h_off sh + length bs\<rparr>"
        let ?dh' = "dh\<lparr>h_off := h_off dh + length bs\<rparr>"
        have i1: "inodes w1 = inodes w" by (simp add: w1 emit_def)
        have cd2: "content (inodes w2 (h_ino dh)) = ?cd @ bs"
          by (simp add: w2 gg emit_def i1 less.prems(5) pwrite_append)
        have cs2: "inodes w2 (h_ino sh) = inodes w (h_ino sh)"
          using ne by (simp add: w2 gg emit_def i1)
        have s2: "map_of (fds w2) src = Some ?sh'"
          using less.prems(1,3) by (simp add: w2 w1 hh emit_def map_of_set_handle)
        have t2: "map_of (fds w2) dst = Some ?dh'"
          using d1 by (simp add: w2 gg emit_def map_of_set_handle)
        have m: "length (content (inodes w2 (h_ino ?sh'))) - h_off ?sh'
            < length ?cs - h_off sh"
        proof -
          have ar: "b < a \<Longrightarrow> 0 < c \<Longrightarrow> a - (b + c) < a - b" for a b c :: nat
            by arith
          from False have "0 < length bs" by simp
          from ar [OF lt this] show ?thesis by (simp add: cs2)
        qed
        have "\<exists>n' r w'. copyBuffer dst src (n + nw) w2 = Some ((n', r), w') \<and>
          (r = None \<longrightarrow> content (inodes w' (h_ino ?dh'))
            = content (inodes w2 (h_ino ?dh')) @ drop (h_off ?sh') (content (inodes w2 (h_ino ?sh'))))"
          by (rule less.hyps [OF m s2 t2 less.prems(3)]) (simp_all add: ne cd2 less.prems(5))
        then obtain n' r w' where rec: "copyBuffer dst src (n + nw) w2 = Some ((n', r), w')"
          and c: "r = None \<longrightarrow> content (inodes w' (h_ino dh))
            = (?cd @ bs) @ drop (h_off sh + length bs) ?cs"
          by (auto simp: cd2 cs2)
        have "bs @ drop (h_off sh + length bs) ?cs = drop (h_off sh) ?cs"
          unfolding bs hh by (rule take_drop_chunk)
        with c have c': "r = None \<longrightarrow> content (inodes w' (h_ino dh)) = ?cd @ drop (h_off sh) ?cs"
          by simp
        have "copyBuffer dst src n w = Some ((n', r), w')"
          using rd wr False nw er rec by (subst copyBuffer.simps) simp
        with c' show ?thesis by blast
      qed
    qed
  qed
qed

lemma flag_simps:
  "O_RDONLY AND O_ACCMODE = O_RDONLY" "O_RDONLY AND O_CREATE = 0" "O_RDONLY AND O_TRUNC = 0"
  "(O_CREATE OR O_WRONLY OR O_TRUNC) AND O_ACCMODE = O_WRONLY"
  "(O_CREATE OR O_WRONLY OR O_TRUNC) AND O_CREATE \<noteq> 0"
  "(O_CREATE OR O_WRONLY OR O_TRUNC) AND O_TRUNC \<noteq> 0"
  "O_WRONLY \<noteq> O_RDONLY" "O_RDONLY \<noteq> O_WRONLY"
  "O_CREATE OR O_WRONLY OR O_TRUNC \<noteq> O_RDONLY"
  by (simp_all add: O_RDONLY_def O_WRONLY_def O_CREATE_def O_TRUNC_def O_ACCMODE_def)

lemma os_Open_cases:
  assumes "os_Open s w = (x, w1)"
  shows "(\<exists>e. x = Inl (PathError ''open'' s e) \<and>
            (fault w = Some e \<or> fault w = None \<and> map_of (names w) s = None \<and> e = ENOENT) \<and>
            w1 = emit (COpenFile s O_RDONLY 0) (Failed (PathError ''open'' s e)) w) \<or>
         (\<exists>si. fault w = None \<and> map_of (names w) s = Some si \<and> x = Inr (fresh_fd w) \<and>
            w1 = emit (COpenFile s O_RDONLY 0) (Handle (fresh_fd w))
                   (w\<lparr>fds := (fresh_fd w, \<lparr>h_name = s, h_ino = si, h_off = 0, h_acc = O_RDONLY\<rparr>)
                                # fds w\<rparr>))"
  using assms
  by (auto simp: os_Open_def os_OpenFile_def Let_def flag_simps split: option.splits if_splits)

lemma File_Stat_cases:
  assumes "File_Stat f w = (x, w1)" "map_of (fds w) f = Some h"
  shows "(\<exists>e. x = Inl e \<and> w1 = emit (CStat f) (Failed e) w) \<or>
         (\<exists>fi. x = Inr fi \<and> fi_mode fi = fileModeOf (st_mode (inodes w (h_ino h))) \<and>
            w1 = emit (CStat f) (Info fi) w)"
  using assms by (auto simp: File_Stat_def Let_def split: option.splits)

lemma os_OpenFile_cases:
  assumes "os_OpenFile d (O_CREATE OR O_WRONLY OR O_TRUNC) m w = (x, w1)"
  shows "(\<exists>e. x = Inl e \<and>
            w1 = emit (COpenFile d (O_CREATE OR O_WRONLY OR O_TRUNC) m) (Failed e) w) \<or>
         (fault w = None \<and> map_of (names w) d = None \<and> x = Inr (fresh_fd w) \<and>
            w1 = emit (COpenFile d (O_CREATE OR O_WRONLY OR O_TRUNC) m) (Handle (fresh_fd w))
                   (w\<lparr>names := (d, fresh_ino w) # names w,
                      inodes := (inodes w)
                        (fresh_ino w := \<lparr>content = [],
                           st_mode = syscallMode m AND NOT (umask w) AND 4095\<rparr>),
                      fds := (fresh_fd w,
                               \<lparr>h_name = d, h_ino = fresh_ino w, h_off = 0, h_acc = O_WRONLY\<rparr>)
                             # fds w\<rparr>)) \<or>
         (\<exists>di. fault w = None \<and> map_of (names w) d = Some di \<and> x = Inr (fresh_fd w) \<and>
            w1 = emit (COpenFile d (O_CREATE OR O_WRONLY OR O_TRUNC) m) (Handle (fresh_fd w))
                   (w\<lparr>inodes := (inodes w)(di := (inodes w di)\<lparr>content := []\<rparr>),
                      fds := (fresh_fd w, \<lparr>h_name = d, h_ino = di, h_off = 0, h_acc = O_WRONLY\<rparr>)
                             # fds w\<rparr>))"
  using assms
  by (auto simp: os_OpenFile_def Let_def flag_simps split: option.splits if_splits)

lemma File_Close_effect:
  assumes "map_of (fds w) f = Some h"
  shows "\<exists>c. (case fst (File_Close f w) of None \<Rightarrow> c = Done | Some e \<Rightarrow> c = Failed e) \<and>
     snd (File_Close f w) = emit (CClose f) c (w\<lparr>fds := del_handle f (fds w)\<rparr>)"
  using assms by (auto simp: File_Close_def split: option.splits)

lemma CopyFile_unfold [consumes 1, case_names open_failed stat_failed create_failed copy_failed
    chmod_failed sync_failed succeeded]:
  assumes "CopyFile s d w = Some (r, w')"
  obtains
    e w1 where "os_Open s w = (Inl e, w1)" "r = Some e" "w' = w1"
  | src w1 e w2 where "os_Open s w = (Inr src, w1)" "File_Stat src w1 = (Inl e, w2)"
      "r = Some e" "w' = snd (File_Close src w2)"
  | src w1 fi w2 e w3 where "os_Open s w = (Inr src, w1)" "File_Stat src w1 = (Inr fi, w2)"
      "os_OpenFile d (O_CREATE OR O_WRONLY OR O_TRUNC) (fi_mode fi) w2 = (Inl e, w3)"
      "r = Some e" "w' = snd (File_Close src w3)"
  | src w1 fi w2 dst w3 n e w4 where "os_Open s w = (Inr src, w1)"
      "File_Stat src w1 = (Inr fi, w2)"
      "os_OpenFile d (O_CREATE OR O_WRONLY OR O_TRUNC) (fi_mode fi) w2 = (Inr dst, w3)"
      "io_Copy dst src w3 = Some ((n, Some e), w4)"
      "r = Some e" "w' = snd (File_Close src (snd (File_Close dst w4)))"
  | src w1 fi w2 dst w3 n w4 e w5 where "os_Open s w = (Inr src, w1)"
      "File_Stat src w1 = (Inr fi, w2)"
      "os_OpenFile d (O_CREATE OR O_WRONLY OR O_TRUNC) (fi_mode fi) w2 = (Inr dst, w3)"
      "io_Copy dst src w3 = Some ((n, None), w4)"
      "os_Chmod d (fi_mode fi) w4 = (Some e, w5)"
      "r = Some e" "w' = snd (File_Close src (snd (File_Close dst w5)))"
  | src w1 fi w2 dst w3 n w4 w5 e w6 where "os_Open s w = (Inr src, w1)"
      "File_Stat src w1 = (Inr fi, w2)"
      "os_OpenFile d (O_CREATE OR O_WRONLY OR O_TRUNC) (fi_mode fi) w2 = (Inr dst, w3)"
      "io_Copy dst src w3 = Some ((n, None), w4)"
      "os_Chmod d (fi_mode fi) w4 = (None, w5)"
      "File_Sync dst w5 = (Some e, w6)"
      "r = Some e" "w' = snd (File_Close src (snd (File_Close dst w6)))"
  | src w1 fi w2 dst w3 n w4 w5 w6 where "os_Open s w = (Inr src, w1)"
      "File_Stat src w1 = (Inr fi, w2)"
      "os_OpenFile d (O_CREATE OR O_WRONLY OR O_TRUNC) (fi_mode fi) w2 = (Inr dst, w3)"
      "io_Copy dst src w3 = Some ((n, None), w4)"
      "os_Chmod d (fi_mode fi) w4 = (None, w5)"
      "File_Sync dst w5 = (None, w6)"
      "r = None" "w' = snd (File_Close src (snd (File_Close dst w6)))"
  using assms unfolding CopyFile_def deferClose_def
  by (auto split: prod.splits sum.splits option.splits)

lemma map_of_del_handle:
  "map_of (del_handle f tab) g = (if g = f then None else map_of tab g)"
  by (induction tab) (auto simp: del_handle_def)

lemma copyBuffer_at_eof:
  assumes "map_of (fds w) src = Some sh"
    and "length (content (inodes w (h_ino sh))) \<le> h_off sh"
    and "copyBuffer dst src n w = Some (res, w')"
  shows "inodes w' = inodes w \<and> (\<exists>out. trace w' = trace w @ [(CRead src, out)])"
proof -
  obtain bs er w1 where rd: "File_Read src bufsize w = ((bs, er), w1)"
    by (metis prod.exhaust)
  from File_Read_cases [OF rd] assms(1,2)
  have "bs = []" "er \<noteq> None" "inodes w1 = inodes w" "\<exists>out. trace w1 = trace w @ [(CRead src, out)]"
    by (auto simp: emit_def)
  moreover from this rd assms(3) have "w' = w1"
    by (subst (asm) copyBuffer.simps) (auto split: if_splits)
  ultimately show ?thesis by simp
qed

lemma closes_after:
  assumes "map_of (fds v) dst = Some a" "map_of (fds v) src = Some b" "src \<noteq> dst"
  shows "\<exists>c2 c1. snd (File_Close src (snd (File_Close dst v)))
     = v\<lparr>fds := del_handle src (del_handle dst (fds v)),
          trace := trace v @ [(CClose dst, c2), (CClose src, c1)]\<rparr>"
proof -
  from File_Close_effect [OF assms(1)] obtain c2 where
    v1: "snd (File_Close dst v) = emit (CClose dst) c2 (v\<lparr>fds := del_handle dst (fds v)\<rparr>)"
    by blast
  have "map_of (fds (snd (File_Close dst v))) src = Some b"
    using assms(2,3) by (simp add: v1 emit_def map_of_del_handle)
  from File_Close_effect [OF this] obtain c1 where
    "snd (File_Close src (snd (File_Close dst v)))
       = emit (CClose src) c1
           (snd (File_Close dst v)\<lparr>fds := del_handle src (fds (snd (File_Close dst v)))\<rparr>)"
    by blast
  then show ?thesis by (auto simp: v1 emit_def)
qed

lemma close_after:
  assumes "map_of (fds v) src = Some b"
  shows "\<exists>c1. snd (File_Close src v)
     = v\<lparr>fds := del_handle src (fds v), trace := trace v @ [(CClose src, c1)]\<rparr>"
  using File_Close_effect [OF assms] by (auto simp: emit_def)

lemma fresh_fd_del: "del_handle (fresh_fd w) (fds w) = fds w"
  by (rule del_handle_fresh) (simp add: fresh_fd_def)

lemma fresh_ino_names: "i \<in> snd ` set (names w) \<Longrightarrow> i < fresh_ino w"
  using maxl_ge [of i "map snd (names w) @ map (\<lambda>p. h_ino (snd p)) (fds w)"]
  by (auto simp: fresh_ino_def)

lemma fresh_ino_fds: "(f, h) \<in> set (fds w) \<Longrightarrow> h_ino h < fresh_ino w"
  using maxl_ge [of "h_ino h" "map snd (names w) @ map (\<lambda>p. h_ino (snd p)) (fds w)"]
  by (force simp: fresh_ino_def)

text \<open>The world after the first three calls have succeeded.\<close>

lemma prefix_ok:
  assumes o1: "os_Open s w = (Inr src, w1)"
    and st: "File_Stat src w1 = (Inr fi, w2)"
    and o2: "os_OpenFile d (O_CREATE OR O_WRONLY OR O_TRUNC) (fi_mode fi) w2 = (Inr dst, w3)"
  shows "\<exists>si di. src = fresh_fd w \<and> dst = Suc src \<and> map_of (names w) s = Some si \<and>
      fi_mode fi = fileModeOf (st_mode (inodes w si)) \<and>
      map_of (names w3) d = Some di \<and>
      (map_of (names w) d = None \<and> names w3 = (d, di) # names w \<and> di \<noteq> si \<and>
         di \<notin> snd ` set (names w) \<or>
       map_of (names w) d = Some di \<and> names w3 = names w) \<and>
      (\<forall>i. i \<noteq> di \<longrightarrow> inodes w3 i = inodes w i) \<and>
      content (inodes w3 di) = [] \<and>
      fds w3 = (dst, \<lparr>h_name = d, h_ino = di, h_off = 0, h_acc = O_WRONLY\<rparr>)
             # (src, \<lparr>h_name = s, h_ino = si, h_off = 0, h_acc = O_RDONLY\<rparr>) # fds w \<and>
      disk w3 = disk w \<and> umask w3 = umask w \<and> faults w3 = faults w \<and> rdlens w3 = rdlens w \<and>
      trace w3 = trace w @ [(COpenFile s O_RDONLY 0, Handle src), (CStat src, Info fi),
        (COpenFile d (O_CREATE OR O_WRONLY OR O_TRUNC) (fi_mode fi), Handle dst)]"
proof -
  from os_Open_cases [OF o1] obtain si where si: "map_of (names w) s = Some si"
    and src: "src = fresh_fd w"
    and w1: "w1 = emit (COpenFile s O_RDONLY 0) (Handle src)
       (w\<lparr>fds := (src, \<lparr>h_name = s, h_ino = si, h_off = 0, h_acc = O_RDONLY\<rparr>) # fds w\<rparr>)"
    by auto
  have h1: "map_of (fds w1) src = Some \<lparr>h_name = s, h_ino = si, h_off = 0, h_acc = O_RDONLY\<rparr>"
    by (simp add: w1 emit_def)
  from File_Stat_cases [OF st h1] have fi: "fi_mode fi = fileModeOf (st_mode (inodes w si))"
    and w2: "w2 = emit (CStat src) (Info fi) w1"
    by (auto simp: w1 emit_def)
  have f2: "fresh_fd w2 = Suc src"
    by (simp add: fresh_fd_def w2 w1 emit_def src)
  have n2: "names w2 = names w" by (simp add: w2 w1 emit_def)
  from os_OpenFile_cases [OF o2] show ?thesis
  proof (elim disjE exE conjE)
    fix e assume "Inr dst = Inl e" then show ?thesis by simp
  next
    assume a: "map_of (names w2) d = None" "Inr dst = Inr (fresh_fd w2)"
      and w3: "w3 = emit (COpenFile d (O_CREATE OR O_WRONLY OR O_TRUNC) (fi_mode fi))
            (Handle (fresh_fd w2))
            (w2\<lparr>names := (d, fresh_ino w2) # names w2,
               inodes := (inodes w2)
                 (fresh_ino w2 := \<lparr>content = [],
                    st_mode = syscallMode (fi_mode fi) AND NOT (umask w2) AND 4095\<rparr>),
               fds := (fresh_fd w2,
                        \<lparr>h_name = d, h_ino = fresh_ino w2, h_off = 0, h_acc = O_WRONLY\<rparr>)
                      # fds w2\<rparr>)"
    have "(src, \<lparr>h_name = s, h_ino = si, h_off = 0, h_acc = O_RDONLY\<rparr>) \<in> set (fds w2)"
      by (simp add: w2 w1 emit_def)
    from fresh_ino_fds [OF this] have ne: "fresh_ino w2 \<noteq> si" by simp
    have nn: "fresh_ino w2 \<notin> snd ` set (names w)"
      using fresh_ino_names [of "fresh_ino w2" w2] n2 by auto
    from a f2 have dst: "dst = Suc src" by simp
    show ?thesis
      apply (rule exI [of _ si], rule exI [of _ "fresh_ino w2"])
      using a(1) ne nn si fi src dst f2 n2
      by (simp add: w3 w2 w1 emit_def)
  next
    fix di assume a: "map_of (names w2) d = Some di" "Inr dst = Inr (fresh_fd w2)"
      and w3: "w3 = emit (COpenFile d (O_CREATE OR O_WRONLY OR O_TRUNC) (fi_mode fi))
            (Handle (fresh_fd w2))
            (w2\<lparr>inodes := (inodes w2)(di := (inodes w2 di)\<lparr>content := []\<rparr>),
               fds := (fresh_fd w2, \<lparr>h_name = d, h_ino = di, h_off = 0, h_acc = O_WRONLY\<rparr>)
                      # fds w2\<rparr>)"
    from a f2 have dst: "dst = Suc src" by simp
    show ?thesis
      apply (rule exI [of _ si], rule exI [of _ di])
      using a(1) si fi src dst f2 n2
      by (simp add: w3 w2 w1 emit_def)
  qed
qed

section \<open>The outcomes of \<open>CopyFile\<close>\<close>

lemma tail_outcome:
  assumes o1: "os_Open s w = (Inr src, w1)"
    and st: "File_Stat src w1 = (Inr fi, w2)"
    and o2: "os_OpenFile d (O_CREATE OR O_WRONLY OR O_TRUNC) (fi_mode fi) w2 = (Inr dst, w3)"
    and cp: "io_Copy dst src w3 = Some ((n, r4), w4)"
    and v: "names v = names w4" "fds v = fds w4" "umask v = umask w4" "faults v = faults w4"
      "rdlens v = rdlens w4" "trace v = trace w4 @ post"
      "\<forall>i. content (inodes v i) = content (inodes w4 i)"
      "\<forall>i. map_of (names w4) d \<noteq> Some i \<and> map_option h_ino (map_of (fds w4) dst) \<noteq> Some i
         \<longrightarrow> inodes v i = inodes w4 i \<and> disk v i = disk w4 i"
      "(CChmod d (fi_mode fi), Done) \<in> set post \<longrightarrow>
         (\<exists>i. map_of (names w4) d = Some i \<and>
              st_mode (inodes v i) = syscallMode (fi_mode fi) AND 4095)"
      "r = None \<longrightarrow>
         (\<exists>h. map_of (fds w4) dst = Some h \<and> disk v (h_ino h) = inodes v (h_ino h))"
    and fin: "finish d (fi_mode fi) dst r4 r post"
    and w': "w' = snd (File_Close src (snd (File_Close dst v)))"
  shows "dst_opened s d w r w'"
proof -
  from prefix_ok [OF o1 st o2] obtain si di where
    src: "src = fresh_fd w" and dst: "dst = Suc src" and si: "map_of (names w) s = Some si"
    and fi: "fi_mode fi = fileModeOf (st_mode (inodes w si))"
    and di: "map_of (names w3) d = Some di"
    and nm: "map_of (names w) d = None \<and> names w3 = (d, di) # names w \<and> di \<noteq> si \<and>
         di \<notin> snd ` set (names w) \<or>
       map_of (names w) d = Some di \<and> names w3 = names w"
    and i3: "\<forall>i. i \<noteq> di \<longrightarrow> inodes w3 i = inodes w i"
    and c3: "content (inodes w3 di) = []"
    and f3: "fds w3 = (dst, \<lparr>h_name = d, h_ino = di, h_off = 0, h_acc = O_WRONLY\<rparr>)
             # (src, \<lparr>h_name = s, h_ino = si, h_off = 0, h_acc = O_RDONLY\<rparr>) # fds w"
    and e3: "disk w3 = disk w" "umask w3 = umask w" "faults w3 = faults w" "rdlens w3 = rdlens w"
    and t3: "trace w3 = trace w @ [(COpenFile s O_RDONLY 0, Handle src), (CStat src, Info fi),
        (COpenFile d (O_CREATE OR O_WRONLY OR O_TRUNC) (fi_mode fi), Handle dst)]"
    by blast
  let ?sh = "\<lparr>h_name = s, h_ino = si, h_off = 0, h_acc = O_RDONLY\<rparr>"
  let ?dh = "\<lparr>h_name = d, h_ino = di, h_off = 0, h_acc = O_WRONLY\<rparr>"
  have ne: "src \<noteq> dst" using dst by simp
  have hs: "map_of (fds w3) src = Some ?sh" and hd: "map_of (fds w3) dst = Some ?dh"
    using ne by (simp_all add: f3)
  from cp have cb: "copyBuffer dst src 0 w3 = Some ((n, r4), w4)" by (simp add: io_Copy_def)
  from copyBuffer_frame [OF cb] have fr: "copy_frame dst src w3 w4" by simp
  from copyBuffer_trace [OF cb] obtain evs where
    t4: "trace w4 = trace w3 @ evs" and ce: "copy_events dst src r4 evs" by auto
  from fr have n4: "names w4 = names w3" and e4: "disk w4 = disk w3" "umask w4 = umask w3"
      "faults w4 = faults w3" "rdlens w4 = rdlens w3"
    and d4: "del_handle src (del_handle dst (fds w4)) = del_handle src (del_handle dst (fds w3))"
    and k4: "\<And>f. map_option hkey (map_of (fds w4) f) = map_option hkey (map_of (fds w3) f)"
    and i4: "\<And>i. i \<noteq> di \<Longrightarrow> inodes w4 i = inodes w3 i"
    by (simp_all add: copy_frame_def hd)
  from k4 [of dst] hd obtain a where a: "map_of (fds w4) dst = Some a" by auto
  from k4 [of src] hs obtain b where b: "map_of (fds w4) src = Some b" by auto
  have dd: "map_of (names w4) d = Some di" by (simp add: n4 di)
  have ai: "h_ino a = di" using k4 [of dst] hd a by (simp add: hkey_def)
  have del: "del_handle src (del_handle dst (fds w3)) = fds w"
  proof -
    have "del_handle dst (fds w3) = (src, ?sh) # del_handle dst (fds w)"
      using ne by (simp add: f3 del_handle_def)
    then have "del_handle src (del_handle dst (fds w3)) = del_handle src (del_handle dst (fds w))"
      by (simp add: del_handle_def)
    also have "\<dots> = del_handle dst (del_handle src (fds w))" by (rule del_handle_commute)
    also have "\<dots> = del_handle dst (fds w)" by (simp add: src fresh_fd_del)
    also have "\<dots> = fds w" by (rule del_handle_fresh) (simp add: dst src fresh_fd_def)
    finally show ?thesis .
  qed
  from closes_after [of v dst a src b] a b ne v(2) obtain c2 c1 where
    wv: "w' = v\<lparr>fds := del_handle src (del_handle dst (fds v)),
          trace := trace v @ [(CClose dst, c2), (CClose src, c1)]\<rparr>"
    unfolding w' by auto
  have content4: "r4 = None \<longrightarrow> content (inodes w4 di) = (if si = di then [] else content (inodes w si))"
  proof
    assume r4: "r4 = None"
    have "\<exists>n' r w'. copyBuffer dst src 0 w3 = Some ((n', r), w') \<and>
      (r = None \<longrightarrow> content (inodes w' (h_ino ?dh))
          = content (inodes w3 (h_ino ?dh)) @ drop (h_off ?sh) (content (inodes w3 (h_ino ?sh))))"
      by (rule copyBuffer_returns [OF hs hd ne]) (auto simp: c3)
    with cb r4 have "content (inodes w4 di) = content (inodes w3 si)" by (auto simp: c3)
    then show "content (inodes w4 di) = (if si = di then [] else content (inodes w si))"
      using c3 i3 by auto
  qed
  have same: "si = di \<longrightarrow> content (inodes w4 di) = [] \<and> (\<exists>out. evs = [(CRead src, out)])"
  proof
    assume eq: "si = di"
    from copyBuffer_at_eof [OF hs _ cb] eq c3 t4
    show "content (inodes w4 di) = [] \<and> (\<exists>out. evs = [(CRead src, out)])" by auto
  qed
  show ?thesis
    unfolding dst_opened_def
    apply (rule exI [of _ si], rule exI [of _ di], rule exI [of _ fi], rule exI [of _ src],
        rule exI [of _ dst], rule exI [of _ evs], rule exI [of _ r4], rule exI [of _ post],
        rule exI [of _ c2], rule exI [of _ c1])
    using src dst si fi di nm i3 e3 t3 t4 ce fin n4 e4 d4 del v dd i4 content4 same a ai
    by (simp add: wv)
qed

lemma os_Chmod_cases:
  assumes "os_Chmod d m w = (x, w1)"
  shows "(\<exists>e. x = Some e \<and> w1 = emit (CChmod d m) (Failed e) w) \<or>
         (\<exists>di. x = None \<and> map_of (names w) d = Some di \<and>
            w1 = emit (CChmod d m) Done
                   (w\<lparr>inodes := (inodes w)
                        (di := (inodes w di)\<lparr>st_mode := syscallMode m AND 4095\<rparr>)\<rparr>))"
  using assms by (auto simp: os_Chmod_def split: option.splits)

lemma File_Sync_cases:
  assumes "File_Sync f w = (x, w1)"
  shows "(\<exists>e. x = Some e \<and> w1 = emit (CSync f) (Failed e) w) \<or>
         (\<exists>h. x = None \<and> map_of (fds w) f = Some h \<and>
            w1 = emit (CSync f) Done (w\<lparr>disk := (disk w)(h_ino h := inodes w (h_ino h))\<rparr>))"
  using assms by (auto simp: File_Sync_def split: option.splits)

lemma CopyFile_outcome [consumes 1, case_names open_failed stat_failed create_failed dst_opened]:
  assumes run: "CopyFile s d w = Some (r, w')"
  obtains
    e where "r = Some (PathError ''open'' s e)"
      "fault w = Some e \<or> fault w = None \<and> map_of (names w) s = None \<and> e = ENOENT"
      "w' = w\<lparr>trace := trace w @ [(COpenFile s O_RDONLY 0, Failed (PathError ''open'' s e))]\<rparr>"
  | si e c1 where "map_of (names w) s = Some si" "r = Some e"
      "w' = w\<lparr>trace := trace w @ [(COpenFile s O_RDONLY 0, Handle (fresh_fd w)),
          (CStat (fresh_fd w), Failed e), (CClose (fresh_fd w), c1)]\<rparr>"
  | si fi e c1 where "map_of (names w) s = Some si" "r = Some e"
      "w' = w\<lparr>trace := trace w @ [(COpenFile s O_RDONLY 0, Handle (fresh_fd w)),
          (CStat (fresh_fd w), Info fi),
          (COpenFile d (O_CREATE OR O_WRONLY OR O_TRUNC) (fi_mode fi), Failed e),
          (CClose (fresh_fd w), c1)]\<rparr>"
  | "dst_opened s d w r w'"
  using run
proof (cases rule: CopyFile_unfold)
  case (open_failed e w1)
  from os_Open_cases [OF open_failed(1)] open_failed(2,3) that(1) show ?thesis
    by (auto simp: emit_def)
next
  case (stat_failed src w1 e w2)
  from os_Open_cases [OF stat_failed(1)] obtain si where si: "map_of (names w) s = Some si"
    and src: "src = fresh_fd w"
    and w1: "w1 = emit (COpenFile s O_RDONLY 0) (Handle src)
       (w\<lparr>fds := (src, \<lparr>h_name = s, h_ino = si, h_off = 0, h_acc = O_RDONLY\<rparr>) # fds w\<rparr>)"
    by auto
  have h1: "map_of (fds w1) src = Some \<lparr>h_name = s, h_ino = si, h_off = 0, h_acc = O_RDONLY\<rparr>"
    by (simp add: w1 emit_def)
  from File_Stat_cases [OF stat_failed(2) h1] have w2: "w2 = emit (CStat src) (Failed e) w1"
    by auto
  have "map_of (fds w2) src = Some \<lparr>h_name = s, h_ino = si, h_off = 0, h_acc = O_RDONLY\<rparr>"
    by (simp add: w2 h1 emit_def)
  from close_after [OF this] obtain c1 where
    "snd (File_Close src w2) = w2\<lparr>fds := del_handle src (fds w2),
        trace := trace w2 @ [(CClose src, c1)]\<rparr>" by blast
  then have "w' = w\<lparr>trace := trace w @ [(COpenFile s O_RDONLY 0, Handle (fresh_fd w)),
          (CStat (fresh_fd w), Failed e), (CClose (fresh_fd w), c1)]\<rparr>"
    using fresh_fd_del [of w]
    by (simp add: stat_failed(4) w2 w1 emit_def src del_handle_def)
  with si stat_failed(3) that(2) show ?thesis by blast
next
  case (create_failed src w1 fi w2 e w3)
  from os_Open_cases [OF create_failed(1)] obtain si where si: "map_of (names w) s = Some si"
    and src: "src = fresh_fd w"
    and w1: "w1 = emit (COpenFile s O_RDONLY 0) (Handle src)
       (w\<lparr>fds := (src, \<lparr>h_name = s, h_ino = si, h_off = 0, h_acc = O_RDONLY\<rparr>) # fds w\<rparr>)"
    by auto
  have h1: "map_of (fds w1) src = Some \<lparr>h_name = s, h_ino = si, h_off = 0, h_acc = O_RDONLY\<rparr>"
    by (simp add: w1 emit_def)
  from File_Stat_cases [OF create_failed(2) h1] have w2: "w2 = emit (CStat src) (Info fi) w1"
    by auto
  from os_OpenFile_cases [OF create_failed(3)]
  have w3: "w3 = emit (COpenFile d (O_CREATE OR O_WRONLY OR O_TRUNC) (fi_mode fi)) (Failed e) w2"
    by auto
  have "map_of (fds w3) src = Some \<lparr>h_name = s, h_ino = si, h_off = 0, h_acc = O_RDONLY\<rparr>"
    by (simp add: w3 w2 h1 emit_def)
  from close_after [OF this] obtain c1 where
    "snd (File_Close src w3) = w3\<lparr>fds := del_handle src (fds w3),
        trace := trace w3 @ [(CClose src, c1)]\<rparr>" by blast
  then have "w' = w\<lparr>trace := trace w @ [(COpenFile s O_RDONLY 0, Handle (fresh_fd w)),
          (CStat (fresh_fd w), Info fi),
          (COpenFile d (O_CREATE OR O_WRONLY OR O_TRUNC) (fi_mode fi), Failed e),
          (CClose (fresh_fd w), c1)]\<rparr>"
    using fresh_fd_del [of w]
    by (simp add: create_failed(5) w3 w2 w1 emit_def src del_handle_def)
  with si create_failed(4) that(3) show ?thesis by blast
next
  case (copy_failed src w1 fi w2 dst w3 n e w4)
  have "dst_opened s d w r w'"
    by (rule tail_outcome [OF copy_failed(1,2,3,4), where v = w4 and post = "[]"])
      (simp_all add: copy_failed(5,6) finish.intros)
  with that(4) show ?thesis .
next
  case (chmod_failed src w1 fi w2 dst w3 n w4 e w5)
  from os_Chmod_cases [OF chmod_failed(5)]
  have w5: "w5 = emit (CChmod d (fi_mode fi)) (Failed e) w4" by auto
  have "dst_opened s d w r w'"
    by (rule tail_outcome [OF chmod_failed(1,2,3,4), where v = w5
          and post = "[(CChmod d (fi_mode fi), Failed e)]"])
      (simp_all add: chmod_failed(6,7) w5 emit_def finish.intros)
  with that(4) show ?thesis .
next
  case (sync_failed src w1 fi w2 dst w3 n w4 w5 e w6)
  from os_Chmod_cases [OF sync_failed(5)] obtain di where
    di: "map_of (names w4) d = Some di"
    and w5: "w5 = emit (CChmod d (fi_mode fi)) Done
                   (w4\<lparr>inodes := (inodes w4)
                        (di := (inodes w4 di)\<lparr>st_mode := syscallMode (fi_mode fi) AND 4095\<rparr>)\<rparr>)"
    by auto
  from File_Sync_cases [OF sync_failed(6)]
  have w6: "w6 = emit (CSync dst) (Failed e) w5" by auto
  have "dst_opened s d w r w'"
    by (rule tail_outcome [OF sync_failed(1,2,3,4), where v = w6
          and post = "[(CChmod d (fi_mode fi), Done), (CSync dst, Failed e)]"])
      (simp_all add: sync_failed(7,8) w6 w5 di emit_def finish.intros)
  with that(4) show ?thesis .
next
  case (succeeded src w1 fi w2 dst w3 n w4 w5 w6)
  from os_Chmod_cases [OF succeeded(5)] obtain di where
    di: "map_of (names w4) d = Some di"
    and w5: "w5 = emit (CChmod d (fi_mode fi)) Done
                   (w4\<lparr>inodes := (inodes w4)
                        (di := (inodes w4 di)\<lparr>st_mode := syscallMode (fi_mode fi) AND 4095\<rparr>)\<rparr>)"
    by auto
  from File_Sync_cases [OF succeeded(6)] obtain h where
    h: "map_of (fds w5) dst = Some h"
    and w6: "w6 = emit (CSync dst) Done (w5\<lparr>disk := (disk w5)(h_ino h := inodes w5 (h_ino h))\<rparr>)"
    by auto
  have h4: "map_of (fds w4) dst = Some h" using h by (simp add: w5 emit_def)
  have "dst_opened s d w r w'"
    by (rule tail_outcome [OF succeeded(1,2,3,4), where v = w6
          and post = "[(CChmod d (fi_mode fi), Done), (CSync dst, Done)]"])
      (simp_all add: succeeded(7,8) w6 w5 di h4 emit_def finish.intros)
  with that(4) show ?thesis .
qed


lemma dst_openedE [consumes 1]:
  assumes "dst_opened s d w r w'"
  obtains si di fi src dst evs r4 post c2 c1 where
    "src = fresh_fd w" "dst = Suc src" "map_of (names w) s = Some si"
    "fi_mode fi = fileModeOf (st_mode (inodes w si))"
    "map_of (names w') d = Some di"
    "map_of (names w) d = None \<and> names w' = (d, di) # names w \<and> di \<noteq> si \<and>
           di \<notin> snd ` set (names w) \<or>
         map_of (names w) d = Some di \<and> names w' = names w"
    "\<forall>i. i \<noteq> di \<longrightarrow> inodes w' i = inodes w i \<and> disk w' i = disk w i"
    "fds w' = fds w" "umask w' = umask w" "faults w' = faults w" "rdlens w' = rdlens w"
    "trace w' = trace w @
          [(COpenFile s O_RDONLY 0, Handle src), (CStat src, Info fi),
           (COpenFile d (O_CREATE OR O_WRONLY OR O_TRUNC) (fi_mode fi), Handle dst)]
          @ evs @ post @ [(CClose dst, c2), (CClose src, c1)]"
    "copy_events dst src r4 evs" "finish d (fi_mode fi) dst r4 r post"
    "r4 = None \<longrightarrow> content (inodes w' di) = (if si = di then [] else content (inodes w si))"
    "si = di \<longrightarrow> content (inodes w' di) = [] \<and> (\<exists>out. evs = [(CRead src, out)])"
    "(CChmod d (fi_mode fi), Done) \<in> set post \<longrightarrow>
           st_mode (inodes w' di) = syscallMode (fi_mode fi) AND 4095"
    "r = None \<longrightarrow> disk w' di = inodes w' di"
  using assms unfolding dst_opened_def
  apply (elim exE conjE)
  apply (rule that)
  apply assumption+
  done

lemma finish_success:
  assumes "finish d m dst r4 None post"
  shows "r4 = None \<and> post = [(CChmod d m, Done), (CSync dst, Done)]"
  using assms by (cases rule: finish.cases) auto

lemma issued_append: "trace w' = trace w @ evs \<Longrightarrow> issued w w' = evs"
  by (simp add: issued_def)

lemma CopyFile_total: "\<exists>r w'. CopyFile s d w = Some (r, w')"
proof -
  obtain x1 w1 where o1: "os_Open s w = (x1, w1)" by force
  show ?thesis
  proof (cases x1)
    case (Inl e)
    with o1 show ?thesis by (simp add: CopyFile_def)
  next
    case (Inr src)
    obtain x2 w2 where st: "File_Stat src w1 = (x2, w2)" by force
    show ?thesis
    proof (cases x2)
      case (Inl e)
      with o1 st Inr show ?thesis by (simp add: CopyFile_def deferClose_def)
    next
      case fi: (Inr fi)
      obtain x3 w3 where o2:
        "os_OpenFile d (O_CREATE OR O_WRONLY OR O_TRUNC) (fi_mode fi) w2 = (x3, w3)" by force
      show ?thesis
      proof (cases x3)
        case (Inl e)
        with o1 st o2 Inr fi show ?thesis by (simp add: CopyFile_def deferClose_def)
      next
        case dst: (Inr dst)
        from prefix_ok [OF o1 [unfolded Inr] st [unfolded fi] o2 [unfolded dst]]
        obtain si di where ne: "dst = Suc src"
          and c3: "content (inodes w3 di) = []"
          and f3: "fds w3 = (dst, \<lparr>h_name = d, h_ino = di, h_off = 0, h_acc = O_WRONLY\<rparr>)
             # (src, \<lparr>h_name = s, h_ino = si, h_off = 0, h_acc = O_RDONLY\<rparr>) # fds w"
          by blast
        have "\<exists>n' r w'. copyBuffer dst src 0 w3 = Some ((n', r), w') \<and>
          (r = None \<longrightarrow> content (inodes w' (h_ino \<lparr>h_name = d, h_ino = di, h_off = 0, h_acc = O_WRONLY\<rparr>))
            = content (inodes w3 (h_ino \<lparr>h_name = d, h_ino = di, h_off = 0, h_acc = O_WRONLY\<rparr>))
              @ drop (h_off \<lparr>h_name = s, h_ino = si, h_off = 0, h_acc = O_RDONLY\<rparr>)
                  (content (inodes w3 (h_ino \<lparr>h_name = s, h_ino = si, h_off = 0, h_acc = O_RDONLY\<rparr>))))"
          by (rule copyBuffer_returns) (use ne c3 in \<open>auto simp: f3\<close>)
        then obtain n' r4 w4 where "io_Copy dst src w3 = Some ((n', r4), w4)"
          by (auto simp: io_Copy_def)
        with o1 st o2 Inr fi dst show ?thesis
          by (auto simp: CopyFile_def deferClose_def split: prod.splits option.splits)
      qed
    qed
  qed
qed


section \<open>Reading traces\<close>

lemma copy_events_calls:
  assumes "copy_events dst src r evs"
  shows "\<forall>ev \<in> set evs. ((\<exists>f. fst ev = CRead f) \<or> (\<exists>f bs. fst ev = CWrite f bs)) \<and>
      (\<forall>h. snd ev \<noteq> Handle h)"
  using assms by induction auto

lemma copy_events_nonempty: "copy_events dst src r evs \<Longrightarrow> evs \<noteq> []"
  by (induction rule: copy_events.induct) auto

lemma copy_events_butlast:
  "copy_events dst src r evs \<Longrightarrow> list_all (\<lambda>ev. \<not> failed (snd ev)) (butlast evs)"
  by (induction rule: copy_events.induct) (auto dest: copy_events_nonempty)

lemma copy_events_last:
  "copy_events dst src r evs \<Longrightarrow>
     (case r of None \<Rightarrow> \<not> failed (snd (last evs)) | Some e \<Rightarrow> snd (last evs) = Failed e)"
  by (induction rule: copy_events.induct) (auto simp: copy_events_nonempty split: option.splits)

lemma copy_events_ok_aux:
  "copy_events dst src r evs \<Longrightarrow> r = None \<longrightarrow> list_all (\<lambda>ev. \<not> failed (snd ev)) evs"
  by (induction rule: copy_events.induct) auto

lemma copy_events_ok:
  "copy_events dst src None evs \<Longrightarrow> list_all (\<lambda>ev. \<not> failed (snd ev)) evs"
  using copy_events_ok_aux by blast

lemma unclosed_append: "unclosed held (xs @ ys) = unclosed (unclosed held xs) ys"
  by (induction xs arbitrary: held) auto

lemma unclosed_copy_events: "copy_events dst src r evs \<Longrightarrow> unclosed held evs = held"
  by (induction rule: copy_events.induct) auto

lemma finish_cases:
  assumes "finish d m dst r4 r post"
  shows "(\<exists>e. r4 = Some e \<and> r = Some e \<and> post = []) \<or>
     (\<exists>e. r4 = None \<and> r = Some e \<and> post = [(CChmod d m, Failed e)]) \<or>
     (\<exists>e. r4 = None \<and> r = Some e \<and> post = [(CChmod d m, Done), (CSync dst, Failed e)]) \<or>
     (r4 = None \<and> r = None \<and> post = [(CChmod d m, Done), (CSync dst, Done)])"
  using assms by (cases rule: finish.cases) auto

lemma steps_copy_events:
  assumes "copy_events dst src r evs"
  shows "steps evs = evs" "closes evs = []"
  using copy_events_calls [OF assms] by (auto simp: steps_def closes_def filter_id_conv filter_empty_conv)

lemma steps_append: "steps (xs @ ys) = steps xs @ steps ys"
  by (simp add: steps_def)

lemma closes_append: "closes (xs @ ys) = closes xs @ closes ys"
  by (simp add: closes_def)

lemma steps_simps:
  "steps [] = []"
  "steps (ev # evs) = (if is_close (fst ev) then steps evs else ev # steps evs)"
  by (simp_all add: steps_def)

lemma closes_simps:
  "closes [] = []"
  "closes (ev # evs) = (if is_close (fst ev) then ev # closes evs else closes evs)"
  by (simp_all add: closes_def)

lemma phases_copy_events:
  assumes "copy_events dst src r evs"
  shows "map (\<lambda>ev. phase (fst ev)) evs = replicate (length evs) 3"
  using copy_events_calls [OF assms] by (induction evs) auto

lemma no_write_open_copy_events:
  assumes "copy_events dst src r evs"
  shows "filter (\<lambda>ev. opens_for_write (fst ev)) evs = []"
    "\<forall>f e. (CStat f, Failed e) \<notin> set evs" "\<forall>p fl m x. (COpenFile p fl m, x) \<notin> set evs"
  using copy_events_calls [OF assms] by (auto simp: filter_empty_conv)

lemma finish_no_open:
  assumes "finish d m dst r4 r post"
  shows "filter (\<lambda>ev. opens_for_write (fst ev)) post = []"
    "\<forall>f e. (CStat f, Failed e) \<notin> set post" "\<forall>p fl m x. (COpenFile p fl m, x) \<notin> set post"
  using finish_cases [OF assms] by auto

lemma run_obs:
  "map_option (\<lambda>p. (fst p, g (snd p))) x = Some (r, v) \<Longrightarrow> \<exists>w'. x = Some (r, w') \<and> g w' = v"
  by (cases x) auto

section \<open>The claims\<close>

lemmas run_defs = CopyFile_def deferClose_def os_Open_def os_OpenFile_def File_Stat_def
  File_Read_def File_Write_def io_Copy_def os_Chmod_def File_Sync_def File_Close_def emit_def
  fault_def fresh_fd_def fresh_ino_def set_handle_def del_handle_def pwrite_def bufsize_def
  O_RDONLY_def O_WRONLY_def O_CREATE_def O_TRUNC_def O_ACCMODE_def syscallMode_def
  fileModeOf_def ModePerm_def ModeSetuid_def ModeSetgid_def ModeSticky_def S_ISUID_def
  S_ISGID_def S_ISVTX_def Let_def

text \<open>
  C5. When the source path does not resolve, or the open of the source fails for any
  other reason, \<open>CopyFile\<close> returns the error of that open (\<open>ENOENT\<close> for a missing
  path) after this one call: the directory entries, the files, stable storage and the
  handle table are what they were, so no destination has been created and an existing
  one keeps its content and mode.
\<close>

theorem CopyFile_source_open_error:
  assumes "map_of (names w) s = None \<or> fault w \<noteq> None"
  shows "\<exists>e w'. CopyFile s d w = Some (Some (PathError ''open'' s e), w') \<and>
      (fault w = None \<longrightarrow> e = ENOENT) \<and>
      names w' = names w \<and> inodes w' = inodes w \<and> disk w' = disk w \<and> fds w' = fds w \<and>
      issued w w' = [(COpenFile s O_RDONLY 0, Failed (PathError ''open'' s e))]"
  using assms
  by (auto simp: CopyFile_def os_Open_def os_OpenFile_def Let_def flag_simps emit_def
      issued_def split: option.splits)

theorem CopyFile_source_open_error_witness:
  "map_of (names demo_world) ''missing.txt'' = None \<and>
   (\<exists>w'. CopyFile ''missing.txt'' ''old.txt'' demo_world
       = Some (Some (PathError ''open'' ''missing.txt'' ENOENT), w') \<and>
     names w' = names demo_world \<and>
     content_at ''old.txt'' w' = Some [1, 2, 3, 4, 5, 6, 7] \<and>
     mode_at ''old.txt'' w' = Some 384 \<and>
     content_at ''missing.txt'' w' = None)"
proof -
  have m: "map_of (names demo_world) ''missing.txt'' = None"
    by (simp add: demo_world_def)
  have f: "fault demo_world = None"
    by (simp add: demo_world_def fault_def)
  from CopyFile_source_open_error [of demo_world "''missing.txt''" "''old.txt''"] m f
  obtain w' where "CopyFile ''missing.txt'' ''old.txt'' demo_world
       = Some (Some (PathError ''open'' ''missing.txt'' ENOENT), w')"
    "names w' = names demo_world" "inodes w' = inodes demo_world"
    by auto
  then show ?thesis
    using m by (auto simp: content_at_def mode_at_def demo_world_def)
qed

text \<open>The example of the specification: \<open>source.txt\<close> copied to a new \<open>destination.txt\<close>.\<close>

lemma demo_new_destination:
  "map_option (\<lambda>p. (fst p, map_of (names (snd p)) ''destination.txt'', issued demo_world (snd p)))
     (CopyFile ''source.txt'' ''destination.txt'' demo_world)
   = Some (None, Some 3,
       [(COpenFile ''source.txt'' 0 0, Handle 1),
        (CStat 1, Info \<lparr>fi_size = 5, fi_mode = 420\<rparr>),
        (COpenFile ''destination.txt'' 577 420, Handle 2),
        (CRead 1, Data [104, 101]), (CWrite 2 [104, 101], Done),
        (CRead 1, Data [108, 108]), (CWrite 2 [108, 108], Done),
        (CRead 1, Data [111]), (CWrite 2 [111], Done), (CRead 1, Data []),
        (CChmod ''destination.txt'' 420, Done), (CSync 2, Done),
        (CClose 2, Done), (CClose 1, Done)])"
  by (simp add: run_defs demo_world_def copyBuffer.simps issued_def)

text \<open>
  C1. When \<open>CopyFile\<close> returns nil, the source path resolved to a file at the call and
  still does, the destination path resolves to a file, and that file has the bytes of
  the source file: the bytes the source file has now and, when the two are not one and
  the same file, the bytes it had at the call. Its mode bits are the source's mode bits at
  the call (the twelve permission bits), and \<open>Stat\<close> reports the same \<open>FileMode\<close> for
  it as it did for the source. Nothing is assumed about the size of the source; the empty
  file is included.
\<close>

theorem CopyFile_copies_content_and_mode:
  assumes "CopyFile s d w = Some (None, w')"
  shows "\<exists>si di. map_of (names w) s = Some si \<and> map_of (names w') s = Some si \<and>
      map_of (names w') d = Some di \<and>
      content (inodes w' di) = content (inodes w' si) \<and>
      (si \<noteq> di \<longrightarrow> content (inodes w' di) = content (inodes w si)) \<and>
      st_mode (inodes w' di) = st_mode (inodes w si) AND 4095 \<and>
      fileModeOf (st_mode (inodes w' di)) = fileModeOf (st_mode (inodes w si))"
  using assms
proof (cases rule: CopyFile_outcome)
  case dst_opened
  then show ?thesis
  proof (cases rule: dst_openedE)
    case (1 si di fi src dst evs r4 post c2 c1)
    from finish_success [OF 1(14)] have r4: "r4 = None"
      and post: "post = [(CChmod d (fi_mode fi), Done), (CSync dst, Done)]" by simp_all
    from 1(17) post 1(4) have m: "st_mode (inodes w' di) = st_mode (inodes w si) AND 4095"
      by (simp add: syscallMode_fileModeOf)
    from 1(6) 1(3) have s': "map_of (names w') s = Some si" by auto
    from 1(15) r4 1(7) have c: "content (inodes w' di) = content (inodes w' si)"
      "si \<noteq> di \<longrightarrow> content (inodes w' di) = content (inodes w si)" by auto
    from 1(3) s' 1(5) c m show ?thesis by (simp add: fileModeOf_low)
  qed
qed simp_all

theorem CopyFile_copies_content_and_mode_witness:
  "\<exists>w'. CopyFile ''source.txt'' ''destination.txt'' demo_world = Some (None, w') \<and>
     content_at ''destination.txt'' demo_world = None \<and>
     content_at ''destination.txt'' w' = Some [104, 101, 108, 108, 111] \<and>
     mode_at ''destination.txt'' w' = Some 420 \<and>
     content_at ''source.txt'' w' = Some [104, 101, 108, 108, 111]"
proof -
  from demo_new_destination obtain w' where
    run: "CopyFile ''source.txt'' ''destination.txt'' demo_world = Some (None, w')"
    and di: "map_of (names w') ''destination.txt'' = Some 3"
    by auto
  from CopyFile_copies_content_and_mode [OF run] di obtain si where
    "map_of (names demo_world) ''source.txt'' = Some si"
    "map_of (names w') ''source.txt'' = Some si"
    "content (inodes w' 3) = content (inodes w' si)"
    "si \<noteq> 3 \<longrightarrow> content (inodes w' 3) = content (inodes demo_world si)"
    "st_mode (inodes w' 3) = st_mode (inodes demo_world si) AND 4095"
    by auto
  with run di show ?thesis
    by (auto simp: content_at_def mode_at_def demo_world_def)
qed

text \<open>Runs in the example world with one call, or the two closes, made to fail.\<close>

lemmas demo_defs = run_defs demo_world_def with_faults_def copyBuffer.simps issued_def

lemma demo_sync_fault:
  "map_option (\<lambda>p. (fst p, issued (with_faults [(11, EIO)]) (snd p)))
     (CopyFile ''source.txt'' ''destination.txt'' (with_faults [(11, EIO)]))
   = Some (Some (PathError ''sync'' ''destination.txt'' EIO),
       [(COpenFile ''source.txt'' 0 0, Handle 1),
        (CStat 1, Info \<lparr>fi_size = 5, fi_mode = 420\<rparr>),
        (COpenFile ''destination.txt'' 577 420, Handle 2),
        (CRead 1, Data [104, 101]), (CWrite 2 [104, 101], Done),
        (CRead 1, Data [108, 108]), (CWrite 2 [108, 108], Done),
        (CRead 1, Data [111]), (CWrite 2 [111], Done), (CRead 1, Data []),
        (CChmod ''destination.txt'' 420, Done),
        (CSync 2, Failed (PathError ''sync'' ''destination.txt'' EIO)),
        (CClose 2, Done), (CClose 1, Done)])"
  by (simp add: demo_defs)

lemma demo_write_fault:
  "map_option (\<lambda>p. (fst p, issued (with_faults [(4, ENOSPC)]) (snd p)))
     (CopyFile ''source.txt'' ''destination.txt'' (with_faults [(4, ENOSPC)]))
   = Some (Some (PathError ''write'' ''destination.txt'' ENOSPC),
       [(COpenFile ''source.txt'' 0 0, Handle 1),
        (CStat 1, Info \<lparr>fi_size = 5, fi_mode = 420\<rparr>),
        (COpenFile ''destination.txt'' 577 420, Handle 2),
        (CRead 1, Data [104, 101]),
        (CWrite 2 [104, 101], Failed (PathError ''write'' ''destination.txt'' ENOSPC)),
        (CClose 2, Done), (CClose 1, Done)])"
  by (simp add: demo_defs)

lemma demo_chmod_fault:
  "map_option (\<lambda>p. (fst p, issued (with_faults [(10, EACCES)]) (snd p)))
     (CopyFile ''source.txt'' ''destination.txt'' (with_faults [(10, EACCES)]))
   = Some (Some (PathError ''chmod'' ''destination.txt'' EACCES),
       [(COpenFile ''source.txt'' 0 0, Handle 1),
        (CStat 1, Info \<lparr>fi_size = 5, fi_mode = 420\<rparr>),
        (COpenFile ''destination.txt'' 577 420, Handle 2),
        (CRead 1, Data [104, 101]), (CWrite 2 [104, 101], Done),
        (CRead 1, Data [108, 108]), (CWrite 2 [108, 108], Done),
        (CRead 1, Data [111]), (CWrite 2 [111], Done), (CRead 1, Data []),
        (CChmod ''destination.txt'' 420, Failed (PathError ''chmod'' ''destination.txt'' EACCES)),
        (CClose 2, Done), (CClose 1, Done)])"
  by (simp add: demo_defs)

lemma demo_stat_fault:
  "map_option (\<lambda>p. (fst p, issued (with_faults [(1, EIO)]) (snd p)))
     (CopyFile ''source.txt'' ''destination.txt'' (with_faults [(1, EIO)]))
   = Some (Some (PathError ''stat'' ''source.txt'' EIO),
       [(COpenFile ''source.txt'' 0 0, Handle 1),
        (CStat 1, Failed (PathError ''stat'' ''source.txt'' EIO)),
        (CClose 1, Done)])"
  by (simp add: demo_defs)

lemma demo_close_faults:
  "map_option (\<lambda>p. (fst p, issued (with_faults [(12, EIO), (13, EIO)]) (snd p)))
     (CopyFile ''source.txt'' ''destination.txt'' (with_faults [(12, EIO), (13, EIO)]))
   = Some (None,
       [(COpenFile ''source.txt'' 0 0, Handle 1),
        (CStat 1, Info \<lparr>fi_size = 5, fi_mode = 420\<rparr>),
        (COpenFile ''destination.txt'' 577 420, Handle 2),
        (CRead 1, Data [104, 101]), (CWrite 2 [104, 101], Done),
        (CRead 1, Data [108, 108]), (CWrite 2 [108, 108], Done),
        (CRead 1, Data [111]), (CWrite 2 [111], Done), (CRead 1, Data []),
        (CChmod ''destination.txt'' 420, Done), (CSync 2, Done),
        (CClose 2, Failed (PathError ''close'' ''destination.txt'' EIO)),
        (CClose 1, Failed (PathError ''close'' ''source.txt'' EIO))])"
  by (simp add: demo_defs)

lemma demo_overwrite:
  "map_option (\<lambda>p. (fst p, map_of (names (snd p)) ''old.txt''))
     (CopyFile ''source.txt'' ''old.txt'' demo_world) = Some (None, Some 2)"
  by (simp add: demo_defs)

lemma demo_umask:
  "map_option fst (CopyFile ''source.txt'' ''destination.txt'' (demo_world\<lparr>umask := 511\<rparr>))
     = Some None"
  by (simp add: demo_defs)

lemma demo_new_content:
  "map_option (\<lambda>p. (fst p, content (inodes (snd p) 3)))
     (CopyFile ''source.txt'' ''destination.txt'' demo_world)
   = Some (None, [104, 101, 108, 108, 111])"
  by (simp add: demo_defs)

text \<open>
  C2. \<open>CopyFile\<close> returns nil only after \<open>Sync\<close> on the destination handle has
  succeeded: on nil, the calls of the run end with the successful \<open>Sync\<close> of the handle
  that the open of the destination returned, followed only by the two deferred closes,
  and stable storage holds the destination file as the cache has it. A \<open>Sync\<close> that
  fails makes \<open>CopyFile\<close> return the error of that \<open>Sync\<close>.
\<close>

theorem CopyFile_success_only_after_sync:
  assumes "CopyFile s d w = Some (r, w')"
  shows "(r = None \<longrightarrow>
      (\<exists>pre dst m c2 src c1 di.
         issued w w' = pre @ [(CSync dst, Done), (CClose dst, c2), (CClose src, c1)] \<and>
         (COpenFile d (O_CREATE OR O_WRONLY OR O_TRUNC) m, Handle dst) \<in> set pre \<and>
         map_of (names w') d = Some di \<and> disk w' di = inodes w' di)) \<and>
    (\<forall>f e. (CSync f, Failed e) \<in> set (issued w w') \<longrightarrow> r = Some e)"
  using assms
proof (cases rule: CopyFile_outcome)
  case (dst_opened)
  then show ?thesis
  proof (cases rule: dst_openedE)
    case (1 si di fi src dst evs r4 post c2 c1)
    note ev = issued_append [OF 1(12)]
    note ce = copy_events_calls [OF 1(13)]
    from finish_cases [OF 1(14)] show ?thesis
    proof (elim disjE exE conjE)
      assume "r4 = None" "r = None" and post: "post = [(CChmod d (fi_mode fi), Done), (CSync dst, Done)]"
      have "issued w w' = ([(COpenFile s O_RDONLY 0, Handle src), (CStat src, Info fi),
           (COpenFile d (O_CREATE OR O_WRONLY OR O_TRUNC) (fi_mode fi), Handle dst)]
          @ evs @ [(CChmod d (fi_mode fi), Done)]) @ [(CSync dst, Done), (CClose dst, c2), (CClose src, c1)]"
        by (simp add: ev post)
      moreover have "(COpenFile d (O_CREATE OR O_WRONLY OR O_TRUNC) (fi_mode fi), Handle dst)
        \<in> set ([(COpenFile s O_RDONLY 0, Handle src), (CStat src, Info fi),
           (COpenFile d (O_CREATE OR O_WRONLY OR O_TRUNC) (fi_mode fi), Handle dst)]
          @ evs @ [(CChmod d (fi_mode fi), Done)])" by simp
      moreover have "\<forall>f e. (CSync f, Failed e) \<notin> set (issued w w')"
        using ce by (auto simp: ev post)
      ultimately show ?thesis using 1(5) 1(18) \<open>r = None\<close> by blast
    qed (use ce in \<open>auto simp: ev\<close>)
  qed
qed (simp_all add: issued_def)

theorem CopyFile_success_only_after_sync_witness:
  "(\<exists>w' di. CopyFile ''source.txt'' ''destination.txt'' demo_world = Some (None, w') \<and>
      map_of (names w') ''destination.txt'' = Some di \<and>
      content (disk w' di) = [104, 101, 108, 108, 111] \<and>
      (CSync 2, Done) \<in> set (issued demo_world w')) \<and>
   (\<exists>w'. CopyFile ''source.txt'' ''destination.txt'' (with_faults [(11, EIO)])
       = Some (Some (PathError ''sync'' ''destination.txt'' EIO), w') \<and>
      (CSync 2, Failed (PathError ''sync'' ''destination.txt'' EIO))
        \<in> set (issued (with_faults [(11, EIO)]) w'))"
proof
  from demo_new_destination obtain w' where
    run: "CopyFile ''source.txt'' ''destination.txt'' demo_world = Some (None, w')"
    and nm: "map_of (names w') ''destination.txt'' = Some 3"
    and tr: "(CSync 2, Done) \<in> set (issued demo_world w')"
    by auto
  from CopyFile_success_only_after_sync [OF run] nm have d: "disk w' 3 = inodes w' 3" by auto
  from run_obs [OF demo_new_content] run
  have "content (inodes w' 3) = [104, 101, 108, 108, 111]" by auto
  with d have c: "content (disk w' 3) = [104, 101, 108, 108, 111]" by simp
  show "\<exists>w' di. CopyFile ''source.txt'' ''destination.txt'' demo_world = Some (None, w') \<and>
      map_of (names w') ''destination.txt'' = Some di \<and>
      content (disk w' di) = [104, 101, 108, 108, 111] \<and>
      (CSync 2, Done) \<in> set (issued demo_world w')"
    by (intro exI [of _ w'] exI [of _ 3] conjI) (rule run nm c tr)+
next
  from demo_sync_fault obtain r w' where
    run: "CopyFile ''source.txt'' ''destination.txt'' (with_faults [(11, EIO)]) = Some (r, w')"
    and tr: "(CSync 2, Failed (PathError ''sync'' ''destination.txt'' EIO))
        \<in> set (issued (with_faults [(11, EIO)]) w')"
    by auto
  from CopyFile_success_only_after_sync [OF run, THEN conjunct2, rule_format, OF tr]
  have "r = Some (PathError ''sync'' ''destination.txt'' EIO)" .
  with run tr show "\<exists>w'. CopyFile ''source.txt'' ''destination.txt'' (with_faults [(11, EIO)])
       = Some (Some (PathError ''sync'' ''destination.txt'' EIO), w') \<and>
      (CSync 2, Failed (PathError ''sync'' ''destination.txt'' EIO))
        \<in> set (issued (with_faults [(11, EIO)]) w')" by auto
qed

text \<open>
  C3. When \<open>CopyFile\<close> returns nil, the mode bits of the destination file, on stable
  storage as well as in the cache, are the mode bits that \<open>Stat\<close> found on the source,
  and \<open>Stat\<close> would report the same \<open>FileMode\<close> for it; this for every world,
  whatever its umask and whether or not the destination existed. The mode that \<open>Stat\<close>
  returned is passed to the open of the destination and passed again to \<open>Chmod\<close> after
  the reads and writes of the copy.
\<close>

theorem CopyFile_mode_reapplied:
  assumes "CopyFile s d w = Some (None, w')"
  shows "\<exists>si di src dst fi evs c2 c1.
      map_of (names w) s = Some si \<and> map_of (names w') d = Some di \<and>
      fi_mode fi = fileModeOf (st_mode (inodes w si)) \<and>
      issued w w' =
        [(COpenFile s O_RDONLY 0, Handle src), (CStat src, Info fi),
         (COpenFile d (O_CREATE OR O_WRONLY OR O_TRUNC) (fi_mode fi), Handle dst)]
        @ evs @
        [(CChmod d (fi_mode fi), Done), (CSync dst, Done), (CClose dst, c2), (CClose src, c1)] \<and>
      list_all (\<lambda>ev. phase (fst ev) = 3) evs \<and>
      st_mode (inodes w' di) = st_mode (inodes w si) AND 4095 \<and>
      fileModeOf (st_mode (inodes w' di)) = fi_mode fi \<and>
      st_mode (disk w' di) = st_mode (inodes w si) AND 4095 \<and>
      fileModeOf (st_mode (disk w' di)) = fi_mode fi"
  using assms
proof (cases rule: CopyFile_outcome)
  case dst_opened
  then show ?thesis
  proof (cases rule: dst_openedE)
    case (1 si di fi src dst evs r4 post c2 c1)
    from finish_success [OF 1(14)] have r4: "r4 = None"
      and post: "post = [(CChmod d (fi_mode fi), Done), (CSync dst, Done)]" by simp_all
    from 1(17) post 1(4) have m: "st_mode (inodes w' di) = st_mode (inodes w si) AND 4095"
      by (simp add: syscallMode_fileModeOf)
    from 1(18) have dk: "disk w' di = inodes w' di" by simp
    have ph: "list_all (\<lambda>ev. phase (fst ev) = 3) evs"
      using copy_events_calls [OF 1(13)] by (auto simp: list_all_iff)
    have "issued w w' =
        [(COpenFile s O_RDONLY 0, Handle src), (CStat src, Info fi),
         (COpenFile d (O_CREATE OR O_WRONLY OR O_TRUNC) (fi_mode fi), Handle dst)]
        @ evs @
        [(CChmod d (fi_mode fi), Done), (CSync dst, Done), (CClose dst, c2), (CClose src, c1)]"
      by (simp add: issued_append [OF 1(12)] post)
    with 1(3) 1(5) 1(4) ph m dk show ?thesis
      by (auto simp: fileModeOf_low simp del: append.simps)
  qed
qed simp_all

theorem CopyFile_mode_reapplied_witness:
  "(\<exists>w' di. CopyFile ''source.txt'' ''old.txt'' demo_world = Some (None, w') \<and>
      mode_at ''old.txt'' demo_world = Some 384 \<and>
      map_of (names w') ''old.txt'' = Some di \<and>
      st_mode (inodes w' di) = 420 \<and> st_mode (disk w' di) = 420) \<and>
   (\<exists>w' di. CopyFile ''source.txt'' ''destination.txt'' (demo_world\<lparr>umask := 511\<rparr>)
       = Some (None, w') \<and>
      map_of (names w') ''destination.txt'' = Some di \<and>
      st_mode (inodes w' di) = 420 \<and> st_mode (disk w' di) = 420)"
proof
  from demo_overwrite obtain w' where
    run: "CopyFile ''source.txt'' ''old.txt'' demo_world = Some (None, w')" by auto
  from CopyFile_mode_reapplied [OF run] obtain si di where
    si: "map_of (names demo_world) ''source.txt'' = Some si"
    and di: "map_of (names w') ''old.txt'' = Some di"
    and m: "st_mode (inodes w' di) = st_mode (inodes demo_world si) AND 4095"
    and k: "st_mode (disk w' di) = st_mode (inodes demo_world si) AND 4095" by blast
  from si have s1: "si = 1" by (simp add: demo_world_def)
  have v: "st_mode (inodes demo_world 1) AND 4095 = 420" by (simp add: demo_world_def)
  have o: "mode_at ''old.txt'' demo_world = Some 384" by (simp add: mode_at_def demo_world_def)
  show "\<exists>w' di. CopyFile ''source.txt'' ''old.txt'' demo_world = Some (None, w') \<and>
      mode_at ''old.txt'' demo_world = Some 384 \<and>
      map_of (names w') ''old.txt'' = Some di \<and>
      st_mode (inodes w' di) = 420 \<and> st_mode (disk w' di) = 420"
    by (intro exI [of _ w'] exI [of _ di] conjI)
      (rule run o di m [unfolded s1 v] k [unfolded s1 v])+
next
  let ?W = "demo_world\<lparr>umask := 511\<rparr>"
  from demo_umask obtain w' where
    run: "CopyFile ''source.txt'' ''destination.txt'' ?W = Some (None, w')" by auto
  from CopyFile_mode_reapplied [OF run] obtain si di where
    si: "map_of (names ?W) ''source.txt'' = Some si"
    and di: "map_of (names w') ''destination.txt'' = Some di"
    and m: "st_mode (inodes w' di) = st_mode (inodes ?W si) AND 4095"
    and k: "st_mode (disk w' di) = st_mode (inodes ?W si) AND 4095" by blast
  from si have s1: "si = 1" by (simp add: demo_world_def)
  have v: "st_mode (inodes ?W 1) AND 4095 = 420" by (simp add: demo_world_def)
  show "\<exists>w' di. CopyFile ''source.txt'' ''destination.txt'' ?W = Some (None, w') \<and>
      map_of (names w') ''destination.txt'' = Some di \<and>
      st_mode (inodes w' di) = 420 \<and> st_mode (disk w' di) = 420"
    by (intro exI [of _ w'] exI [of _ di] conjI)
      (rule run di m [unfolded s1 v] k [unfolded s1 v])+
qed

text \<open>
  C4. The calls of a run are its steps followed by the deferred closes. The steps come in
  the order open source, stat, open destination, copy, chmod, sync, each of them but the
  copy at most once; no step but the last one has failed; when \<open>CopyFile\<close> returns
  an error it is the very error of the last step; and \<open>CopyFile\<close> returns nil exactly
  when no step failed, in which case all six steps were made.
\<close>

theorem CopyFile_steps_in_order:
  assumes "CopyFile s d w = Some (r, w')"
  shows "issued w w' = steps (issued w w') @ closes (issued w w') \<and>
    sorted (map (\<lambda>ev. phase (fst ev)) (steps (issued w w'))) \<and>
    distinct (filter (\<lambda>p. p \<noteq> 3) (map (\<lambda>ev. phase (fst ev)) (steps (issued w w')))) \<and>
    list_all (\<lambda>ev. \<not> failed (snd ev)) (butlast (steps (issued w w'))) \<and>
    (\<forall>e. r = Some e \<longrightarrow>
       steps (issued w w') \<noteq> [] \<and> snd (last (steps (issued w w'))) = Failed e) \<and>
    (r = None \<longleftrightarrow> list_all (\<lambda>ev. \<not> failed (snd ev)) (steps (issued w w'))) \<and>
    (r = None \<longrightarrow> (\<lambda>ev. phase (fst ev)) ` set (steps (issued w w')) = {0, 1, 2, 3, 4, 5})"
  using assms
proof (cases rule: CopyFile_outcome)
  case dst_opened
  then show ?thesis
  proof (cases rule: dst_openedE)
    case (1 si di fi src dst evs r4 post c2 c1)
    note ev = issued_append [OF 1(12)]
    note st = steps_copy_events [OF 1(13)]
    note ne = copy_events_nonempty [OF 1(13)]
    note ph = phases_copy_events [OF 1(13)]
    note bl = copy_events_butlast [OF 1(13)]
    have phs: "(\<lambda>ev. phase (fst ev)) ` set evs = {3}"
    proof -
      have "set (map (\<lambda>ev. phase (fst ev)) evs) = {3}" unfolding ph using ne by simp
      then show ?thesis by simp
    qed
    have l0: "0 < length evs" using ne by simp
    from finish_cases [OF 1(14)] show ?thesis
    proof (elim disjE exE conjE)
      fix e assume a: "r4 = Some e" "r = Some e" "post = []"
      from copy_events_last [OF 1(13)] a have f: "snd (last evs) = Failed e" by simp
      have nall: "\<not> list_all (\<lambda>ev. \<not> failed (snd ev)) evs"
      proof -
        from f have "failed (snd (last evs))" by simp
        moreover have "last evs \<in> set evs" using ne by simp
        ultimately show ?thesis unfolding list_all_iff by blast
      qed
      show ?thesis using a f nall bl ne
        by (simp add: ev steps_append closes_append steps_simps closes_simps st flag_simps ph
            sorted_append butlast_append)
    next
      fix e assume a: "r4 = None" "r = Some e" "post = [(CChmod d (fi_mode fi), Failed e)]"
      from copy_events_ok [OF 1(13) [unfolded a(1)]] a ne l0 show ?thesis
        by (simp add: ev steps_append closes_append steps_simps closes_simps st flag_simps ph
            sorted_append butlast_append)
    next
      fix e assume a: "r4 = None" "r = Some e"
        "post = [(CChmod d (fi_mode fi), Done), (CSync dst, Failed e)]"
      from copy_events_ok [OF 1(13) [unfolded a(1)]] a ne l0 show ?thesis
        by (simp add: ev steps_append closes_append steps_simps closes_simps st flag_simps ph
            sorted_append butlast_append)
    next
      assume a: "r4 = None" "r = None" "post = [(CChmod d (fi_mode fi), Done), (CSync dst, Done)]"
      from copy_events_ok [OF 1(13) [unfolded a(1)]] a ne l0 phs show ?thesis
        by (auto simp add: ev steps_append closes_append steps_simps closes_simps st flag_simps ph
            sorted_append butlast_append image_Un)
    qed
  qed
qed (simp_all add: issued_def steps_simps closes_simps flag_simps)

theorem CopyFile_steps_in_order_witness:
  "\<exists>w'. CopyFile ''source.txt'' ''destination.txt'' (with_faults [(10, EACCES)])
       = Some (Some (PathError ''chmod'' ''destination.txt'' EACCES), w') \<and>
     map (\<lambda>ev. phase (fst ev)) (steps (issued (with_faults [(10, EACCES)]) w'))
       = [0, 1, 2, 3, 3, 3, 3, 3, 3, 3, 4] \<and>
     closes (issued (with_faults [(10, EACCES)]) w') = [(CClose 2, Done), (CClose 1, Done)] \<and>
     snd (last (steps (issued (with_faults [(10, EACCES)]) w')))
       = Failed (PathError ''chmod'' ''destination.txt'' EACCES) \<and>
     list_all (\<lambda>ev. \<not> failed (snd ev)) (butlast (steps (issued (with_faults [(10, EACCES)]) w')))"
proof -
  let ?W = "with_faults [(10, EACCES)]"
  let ?e = "PathError ''chmod'' ''destination.txt'' EACCES"
  from run_obs [OF demo_chmod_fault] obtain w' where
    run: "CopyFile ''source.txt'' ''destination.txt'' ?W = Some (Some ?e, w')"
    and tr: "issued ?W w' =
       [(COpenFile ''source.txt'' 0 0, Handle 1),
        (CStat 1, Info \<lparr>fi_size = 5, fi_mode = 420\<rparr>),
        (COpenFile ''destination.txt'' 577 420, Handle 2),
        (CRead 1, Data [104, 101]), (CWrite 2 [104, 101], Done),
        (CRead 1, Data [108, 108]), (CWrite 2 [108, 108], Done),
        (CRead 1, Data [111]), (CWrite 2 [111], Done), (CRead 1, Data []),
        (CChmod ''destination.txt'' 420, Failed ?e),
        (CClose 2, Done), (CClose 1, Done)]"
    by blast
  note th = CopyFile_steps_in_order [OF run]
  note bl = th [THEN conjunct2, THEN conjunct2, THEN conjunct2, THEN conjunct1]
  note la = th [THEN conjunct2, THEN conjunct2, THEN conjunct2, THEN conjunct2, THEN conjunct1]
  note l = la [rule_format, OF refl, THEN conjunct2]
  have st: "steps (issued ?W w') =
       [(COpenFile ''source.txt'' 0 0, Handle 1),
        (CStat 1, Info \<lparr>fi_size = 5, fi_mode = 420\<rparr>),
        (COpenFile ''destination.txt'' 577 420, Handle 2),
        (CRead 1, Data [104, 101]), (CWrite 2 [104, 101], Done),
        (CRead 1, Data [108, 108]), (CWrite 2 [108, 108], Done),
        (CRead 1, Data [111]), (CWrite 2 [111], Done), (CRead 1, Data []),
        (CChmod ''destination.txt'' 420, Failed ?e)]"
    unfolding tr by (simp add: steps_simps)
  have ph: "map (\<lambda>ev. phase (fst ev)) (steps (issued ?W w')) = [0, 1, 2, 3, 3, 3, 3, 3, 3, 3, 4]"
    unfolding st by (simp add: O_ACCMODE_def O_RDONLY_def)
  have cl: "closes (issued ?W w') = [(CClose 2, Done), (CClose 1, Done)]"
    unfolding tr by (simp add: closes_simps)
  show ?thesis
    by (intro exI [of _ w'] conjI) (rule run ph cl l bl)+
qed

text \<open>
  C6. In every run, a call that opens a file for writing is preceded by exactly the
  successful open of the source and the successful \<open>Stat\<close> of its handle; there is at
  most one such call; and a run in which the open of the source or the \<open>Stat\<close> failed
  has none.
\<close>

theorem CopyFile_destination_opened_after_source:
  assumes "CopyFile s d w = Some (r, w')"
  shows "((\<exists>ev \<in> set (issued w w'). opens_for_write (fst ev)) \<longrightarrow>
       (\<exists>src fi. takeWhile (\<lambda>ev. \<not> opens_for_write (fst ev)) (issued w w')
          = [(COpenFile s O_RDONLY 0, Handle src), (CStat src, Info fi)])) \<and>
    length (filter (\<lambda>ev. opens_for_write (fst ev)) (issued w w')) \<le> 1 \<and>
    ((\<exists>e. (COpenFile s O_RDONLY 0, Failed e) \<in> set (issued w w')) \<or>
     (\<exists>f e. (CStat f, Failed e) \<in> set (issued w w')) \<longrightarrow>
       \<not> (\<exists>ev \<in> set (issued w w'). opens_for_write (fst ev)))"
  using assms
proof (cases rule: CopyFile_outcome)
  case dst_opened
  then show ?thesis
  proof (cases rule: dst_openedE)
    case (1 si di fi src dst evs r4 post c2 c1)
    note ev = issued_append [OF 1(12)]
    note a = no_write_open_copy_events [OF 1(13)]
    note b = finish_no_open [OF 1(14)]
    show ?thesis using a b by (simp add: ev flag_simps)
  qed
qed (auto simp: issued_def flag_simps)

theorem CopyFile_destination_opened_after_source_witness:
  "(\<exists>w'. CopyFile ''source.txt'' ''destination.txt'' (with_faults [(1, EIO)])
       = Some (Some (PathError ''stat'' ''source.txt'' EIO), w') \<and>
      filter (\<lambda>ev. opens_for_write (fst ev)) (issued (with_faults [(1, EIO)]) w') = []) \<and>
   (\<exists>w'. CopyFile ''source.txt'' ''destination.txt'' demo_world = Some (None, w') \<and>
      takeWhile (\<lambda>ev. \<not> opens_for_write (fst ev)) (issued demo_world w')
        = [(COpenFile ''source.txt'' O_RDONLY 0, Handle 1),
           (CStat 1, Info \<lparr>fi_size = 5, fi_mode = 420\<rparr>)])"
proof
  let ?W = "with_faults [(1, EIO)]"
  from demo_stat_fault obtain w' where
    run: "CopyFile ''source.txt'' ''destination.txt'' ?W
       = Some (Some (PathError ''stat'' ''source.txt'' EIO), w')"
    and tr: "(CStat 1, Failed (PathError ''stat'' ''source.txt'' EIO)) \<in> set (issued ?W w')"
    by auto
  from CopyFile_destination_opened_after_source [OF run] tr
  have "\<not> (\<exists>ev \<in> set (issued ?W w'). opens_for_write (fst ev))" by blast
  then have "filter (\<lambda>ev. opens_for_write (fst ev)) (issued ?W w') = []"
    by (simp add: filter_empty_conv)
  with run show "\<exists>w'. CopyFile ''source.txt'' ''destination.txt'' ?W
       = Some (Some (PathError ''stat'' ''source.txt'' EIO), w') \<and>
      filter (\<lambda>ev. opens_for_write (fst ev)) (issued ?W w') = []" by blast
next
  from demo_new_destination obtain w' where
    run: "CopyFile ''source.txt'' ''destination.txt'' demo_world = Some (None, w')"
    and tr: "(COpenFile ''destination.txt'' 577 420, Handle 2) \<in> set (issued demo_world w')"
      "(COpenFile ''source.txt'' 0 0, Handle 1) \<in> set (issued demo_world w')"
      "(CStat 1, Info \<lparr>fi_size = 5, fi_mode = 420\<rparr>) \<in> set (issued demo_world w')"
      "hd (issued demo_world w') = (COpenFile ''source.txt'' 0 0, Handle 1)"
      "hd (tl (issued demo_world w')) = (CStat 1, Info \<lparr>fi_size = 5, fi_mode = 420\<rparr>)"
    by auto
  have "opens_for_write (fst (COpenFile ''destination.txt'' 577 420, Handle 2))"
    by (simp add: O_ACCMODE_def O_RDONLY_def)
  with tr(1) have "\<exists>ev \<in> set (issued demo_world w'). opens_for_write (fst ev)" by blast
  with CopyFile_destination_opened_after_source [OF run] obtain src fi where
    tw: "takeWhile (\<lambda>ev. \<not> opens_for_write (fst ev)) (issued demo_world w')
          = [(COpenFile ''source.txt'' O_RDONLY 0, Handle src), (CStat src, Info fi)]" by blast
  obtain evs where evs: "issued demo_world w' = evs" by simp
  have "takeWhile (\<lambda>ev. \<not> opens_for_write (fst ev)) (issued demo_world w')
        = [(COpenFile ''source.txt'' O_RDONLY 0, Handle 1),
           (CStat 1, Info \<lparr>fi_size = 5, fi_mode = 420\<rparr>)]"
    using demo_new_destination run by (auto simp: O_ACCMODE_def O_RDONLY_def)
  with run show "\<exists>w'. CopyFile ''source.txt'' ''destination.txt'' demo_world = Some (None, w') \<and>
      takeWhile (\<lambda>ev. \<not> opens_for_write (fst ev)) (issued demo_world w')
        = [(COpenFile ''source.txt'' O_RDONLY 0, Handle 1),
           (CStat 1, Info \<lparr>fi_size = 5, fi_mode = 420\<rparr>)]" by blast
qed

text \<open>
  C7. Every call of \<open>CopyFile\<close> returns, and when it returns the handle table is what
  it was before the call and every handle that a call of the run returned has been closed
  by a later call of the run, whichever step failed.
\<close>

theorem CopyFile_releases_handles:
  "\<exists>r w'. CopyFile s d w = Some (r, w') \<and> fds w' = fds w \<and> unclosed [] (issued w w') = []"
proof -
  from CopyFile_total obtain r w' where run: "CopyFile s d w = Some (r, w')" by blast
  then have "fds w' = fds w \<and> unclosed [] (issued w w') = []"
  proof (cases rule: CopyFile_outcome)
    case (dst_opened)
    then show ?thesis
    proof (cases rule: dst_openedE)
      case (1 si di fi src dst evs r4 post c2 c1)
      from 1(2) have ne: "src \<noteq> dst" by simp
      from finish_cases [OF 1(14)] have "unclosed [dst, src] post = [dst, src]" by auto
      with ne show ?thesis
        by (simp add: 1(8) issued_append [OF 1(12)] unclosed_append
            unclosed_copy_events [OF 1(13)])
    qed
  qed (simp_all add: issued_def)
  with run show ?thesis by blast
qed

theorem CopyFile_releases_handles_witness:
  "\<exists>w'. CopyFile ''source.txt'' ''destination.txt'' (with_faults [(4, ENOSPC)])
       = Some (Some (PathError ''write'' ''destination.txt'' ENOSPC), w') \<and>
     fds w' = [] \<and>
     unclosed [] (issued (with_faults [(4, ENOSPC)]) w') = [] \<and>
     closes (issued (with_faults [(4, ENOSPC)]) w') = [(CClose 2, Done), (CClose 1, Done)]"
proof -
  let ?W = "with_faults [(4, ENOSPC)]"
  let ?e = "PathError ''write'' ''destination.txt'' ENOSPC"
  from run_obs [OF demo_write_fault] obtain v where
    run: "CopyFile ''source.txt'' ''destination.txt'' ?W = Some (Some ?e, v)"
    and tr: "issued ?W v =
       [(COpenFile ''source.txt'' 0 0, Handle 1),
        (CStat 1, Info \<lparr>fi_size = 5, fi_mode = 420\<rparr>),
        (COpenFile ''destination.txt'' 577 420, Handle 2),
        (CRead 1, Data [104, 101]),
        (CWrite 2 [104, 101], Failed ?e),
        (CClose 2, Done), (CClose 1, Done)]"
    by blast
  from CopyFile_releases_handles [of "''source.txt''" "''destination.txt''" ?W]
  obtain r w' where run': "CopyFile ''source.txt'' ''destination.txt'' ?W = Some (r, w')"
    and f: "fds w' = fds ?W" and u: "unclosed [] (issued ?W w') = []"
    by blast
  from run run' have eq: "w' = v" by simp
  have f0: "fds v = []" using f unfolding eq by (simp add: with_faults_def demo_world_def)
  have cl: "closes (issued ?W v) = [(CClose 2, Done), (CClose 1, Done)]"
    unfolding tr by (simp add: closes_simps)
  show ?thesis
    by (intro exI [of _ v] conjI) (rule run f0 u [unfolded eq] cl)+
qed

text \<open>
  C8 as stated fails when both paths name one file: copying \<open>source.txt\<close> onto itself
  returns nil and leaves the source file, which held \<open>hello\<close>, empty.
\<close>

theorem CopyFile_same_path_counterexample:
  "map_option (\<lambda>p. (fst p, content_at ''source.txt'' (snd p)))
     (CopyFile ''source.txt'' ''source.txt'' demo_world) = Some (None, Some []) \<and>
   content_at ''source.txt'' demo_world = Some [104, 101, 108, 108, 111]"
  by (simp add: demo_defs content_at_def)

text \<open>
  C8, amended. \<open>CopyFile\<close> modifies only the file at the destination path: in every
  call, successful or failing, in which the source path and the destination path do not
  resolve to the same file, the source file's content and permission mode are unchanged,
  and in every call no filesystem state other than the destination file is created,
  deleted or altered: the directory is what it was, or has gained the destination's
  entry for a file that no entry named before, and every file other than the one the
  destination path resolves to has the content and mode it had, in the cache and on
  stable storage. The umask and the handle table are what they were.
\<close>

theorem CopyFile_touches_destination_only:
  assumes "CopyFile s d w = Some (r, w')"
  shows "(\<not> (\<exists>i. map_of (names w) s = Some i \<and> map_of (names w) d = Some i) \<longrightarrow>
        map_of (names w') s = map_of (names w) s \<and>
        content_at s w' = content_at s w \<and> mode_at s w' = mode_at s w \<and>
        (\<forall>i. map_of (names w) s = Some i \<longrightarrow> inodes w' i = inodes w i \<and> disk w' i = disk w i)) \<and>
    (names w' = names w \<or>
     map_of (names w) d = None \<and>
       (\<exists>i. names w' = (d, i) # names w \<and> i \<notin> snd ` set (names w))) \<and>
    (\<forall>p. p \<noteq> d \<longrightarrow> map_of (names w') p = map_of (names w) p) \<and>
    (map_of (names w) d \<noteq> None \<longrightarrow> names w' = names w) \<and>
    (\<forall>i. map_of (names w') d \<noteq> Some i \<longrightarrow> inodes w' i = inodes w i \<and> disk w' i = disk w i) \<and>
    umask w' = umask w \<and> fds w' = fds w"
  using assms
proof (cases rule: CopyFile_outcome)
  case dst_opened
  then show ?thesis
  proof (cases rule: dst_openedE)
    case (1 si di fi src dst evs r4 post c2 c1)
    from 1(6) have nm: "\<forall>p. p \<noteq> d \<longrightarrow> map_of (names w') p = map_of (names w) p" by auto
    from 1(6) 1(3) have s': "map_of (names w') s = Some si" by auto
    have dir: "names w' = names w \<or>
        map_of (names w) d = None \<and>
          (\<exists>i. names w' = (d, i) # names w \<and> i \<notin> snd ` set (names w))"
      using 1(6) by blast
    have ex: "map_of (names w) d \<noteq> None \<longrightarrow> names w' = names w"
      using 1(6) by auto
    have fr: "\<forall>i. map_of (names w') d \<noteq> Some i \<longrightarrow> inodes w' i = inodes w i \<and> disk w' i = disk w i"
      using 1(5) 1(7) by simp
    have src: "\<not> (\<exists>i. map_of (names w) s = Some i \<and> map_of (names w) d = Some i) \<longrightarrow>
        map_of (names w') s = map_of (names w) s \<and>
        content_at s w' = content_at s w \<and> mode_at s w' = mode_at s w \<and>
        (\<forall>i. map_of (names w) s = Some i \<longrightarrow> inodes w' i = inodes w i \<and> disk w' i = disk w i)"
    proof
      assume na: "\<not> (\<exists>i. map_of (names w) s = Some i \<and> map_of (names w) d = Some i)"
      from 1(6) 1(3) na have ne: "si \<noteq> di" by auto
      with 1(7) have u: "inodes w' si = inodes w si" "disk w' si = disk w si" by simp_all
      with 1(3) s' show "map_of (names w') s = map_of (names w) s \<and>
        content_at s w' = content_at s w \<and> mode_at s w' = mode_at s w \<and>
        (\<forall>i. map_of (names w) s = Some i \<longrightarrow> inodes w' i = inodes w i \<and> disk w' i = disk w i)"
        by (simp add: content_at_def mode_at_def)
    qed
    from src dir nm ex fr 1(8) 1(9) show ?thesis by (intro conjI)
  qed
qed (simp_all add: content_at_def mode_at_def)

theorem CopyFile_touches_destination_only_witness:
  "\<exists>w'. CopyFile ''source.txt'' ''old.txt'' demo_world = Some (None, w') \<and>
     names w' = names demo_world \<and>
     content_at ''source.txt'' w' = Some [104, 101, 108, 108, 111] \<and>
     mode_at ''source.txt'' w' = Some 420 \<and>
     inodes w' 1 = inodes demo_world 1 \<and> disk w' 1 = disk demo_world 1"
proof -
  from run_obs [OF demo_overwrite] obtain w' where
    run: "CopyFile ''source.txt'' ''old.txt'' demo_world = Some (None, w')"
    by blast
  note th = CopyFile_touches_destination_only [OF run]
  have s1: "map_of (names demo_world) ''source.txt'' = Some 1"
    and ex: "map_of (names demo_world) ''old.txt'' \<noteq> None"
    and na: "\<not> (\<exists>i. map_of (names demo_world) ''source.txt'' = Some i \<and>
               map_of (names demo_world) ''old.txt'' = Some i)"
    by (simp_all add: demo_world_def)
  note a = th [THEN conjunct1, rule_format, OF na]
  note n = th [THEN conjunct2, THEN conjunct2, THEN conjunct2, THEN conjunct1, rule_format, OF ex]
  note c = a [THEN conjunct2, THEN conjunct1]
  note m = a [THEN conjunct2, THEN conjunct2, THEN conjunct1]
  note u = a [THEN conjunct2, THEN conjunct2, THEN conjunct2, rule_format, OF s1]
  have c0: "content_at ''source.txt'' demo_world = Some [104, 101, 108, 108, 111]"
    and m0: "mode_at ''source.txt'' demo_world = Some 420"
    by (simp_all add: content_at_def mode_at_def demo_world_def)
  show ?thesis
    by (intro exI [of _ w'] conjI)
      (rule run n c [unfolded c0] m [unfolded m0] u [THEN conjunct1] u [THEN conjunct2])+
qed

text \<open>
  C9. When both paths resolve to the same file: in every run in which the open of the
  destination succeeded the file is empty afterwards and no write was made; and when no
  call fails, \<open>CopyFile\<close> returns nil, \<open>Stat\<close> has seen the original size, the open of
  the destination comes before the first read, that read meets the end of the file at
  once, and the file is empty in the cache and on stable storage.
\<close>

theorem CopyFile_same_file_truncates:
  assumes "map_of (names w) s = Some i" "map_of (names w) d = Some i"
  shows "(\<forall>r w'. CopyFile s d w = Some (r, w') \<and>
        (\<exists>m dst. (COpenFile d (O_CREATE OR O_WRONLY OR O_TRUNC) m, Handle dst) \<in> set (issued w w'))
        \<longrightarrow> content (inodes w' i) = [] \<and>
            (\<forall>f bs x. (CWrite f bs, x) \<notin> set (issued w w'))) \<and>
    ((\<forall>n. faults w n = None) \<longrightarrow>
      (\<exists>w' fi. CopyFile s d w = Some (None, w') \<and> names w' = names w \<and>
        content (inodes w' i) = [] \<and> content (disk w' i) = [] \<and>
        fi_size fi = length (content (inodes w i)) \<and>
        issued w w' =
          [(COpenFile s O_RDONLY 0, Handle (fresh_fd w)), (CStat (fresh_fd w), Info fi),
           (COpenFile d (O_CREATE OR O_WRONLY OR O_TRUNC) (fi_mode fi), Handle (Suc (fresh_fd w))),
           (CRead (fresh_fd w), Data []), (CChmod d (fi_mode fi), Done),
           (CSync (Suc (fresh_fd w)), Done), (CClose (Suc (fresh_fd w)), Done),
           (CClose (fresh_fd w), Done)]))"
proof (rule conjI; (intro allI impI)?)
  fix r w'
  assume h: "CopyFile s d w = Some (r, w') \<and>
        (\<exists>m dst. (COpenFile d (O_CREATE OR O_WRONLY OR O_TRUNC) m, Handle dst) \<in> set (issued w w'))"
  then have run: "CopyFile s d w = Some (r, w')" by simp
  from run show "content (inodes w' i) = [] \<and> (\<forall>f bs x. (CWrite f bs, x) \<notin> set (issued w w'))"
  proof (cases rule: CopyFile_outcome)
    case dst_opened
    then show ?thesis
    proof (cases rule: dst_openedE)
      case (1 si di fi src dst evs r4 post c2 c1)
      from 1(3) assms(1) have si: "si = i" by simp
      from 1(6) assms(2) 1(5) have di: "di = i" by auto
      from 1(16) si di obtain out where "content (inodes w' i) = []" "evs = [(CRead src, out)]"
        by auto
      moreover from finish_cases [OF 1(14)] have "\<forall>f bs x. (CWrite f bs, x) \<notin> set post" by auto
      ultimately show ?thesis by (simp add: issued_append [OF 1(12)])
    qed
  qed (use h in \<open>auto simp: issued_def flag_simps\<close>)
next
  assume "\<forall>n. faults w n = None"
  with assms show "\<exists>w' fi. CopyFile s d w = Some (None, w') \<and> names w' = names w \<and>
        content (inodes w' i) = [] \<and> content (disk w' i) = [] \<and>
        fi_size fi = length (content (inodes w i)) \<and>
        issued w w' =
          [(COpenFile s O_RDONLY 0, Handle (fresh_fd w)), (CStat (fresh_fd w), Info fi),
           (COpenFile d (O_CREATE OR O_WRONLY OR O_TRUNC) (fi_mode fi), Handle (Suc (fresh_fd w))),
           (CRead (fresh_fd w), Data []), (CChmod d (fi_mode fi), Done),
           (CSync (Suc (fresh_fd w)), Done), (CClose (Suc (fresh_fd w)), Done),
           (CClose (fresh_fd w), Done)]"
    apply (simp add: CopyFile_def deferClose_def os_Open_def os_OpenFile_def File_Stat_def
        io_Copy_def fault_def emit_def Let_def flag_simps fresh_fd_def)
    apply (subst copyBuffer.simps)
    apply (simp add: File_Read_def os_Chmod_def File_Sync_def File_Close_def fault_def emit_def
        Let_def flag_simps set_handle_def del_handle_def issued_def)
    done
qed

theorem CopyFile_same_file_truncates_witness:
  "map_of (names demo_world) ''source.txt'' = Some 1 \<and>
   content (inodes demo_world 1) = [104, 101, 108, 108, 111] \<and>
   (\<exists>w'. CopyFile ''source.txt'' ''source.txt'' demo_world = Some (None, w') \<and>
      content (inodes w' 1) = [] \<and> content (disk w' 1) = [])"
proof -
  have a: "map_of (names demo_world) ''source.txt'' = Some 1"
    and b: "content (inodes demo_world 1) = [104, 101, 108, 108, 111]"
    and nf: "\<forall>n. faults demo_world n = None"
    by (simp_all add: demo_world_def)
  note th = CopyFile_same_file_truncates [OF a a, THEN conjunct2, rule_format, OF nf [rule_format]]
  then obtain w' where "CopyFile ''source.txt'' ''source.txt'' demo_world = Some (None, w')"
    "content (inodes w' 1) = []" "content (disk w' 1) = []" by blast
  with a b show ?thesis by blast
qed

text \<open>
  C10. What the deferred closes return has no part in the result: \<open>CopyFile\<close> returns
  nil exactly when none of the calls other than the closes failed, and an error it returns
  is the error of one of those calls. So a run in which both closes fail still returns nil.
\<close>

theorem CopyFile_ignores_close_errors:
  assumes "CopyFile s d w = Some (r, w')"
  shows "(r = None \<longleftrightarrow> list_all (\<lambda>ev. \<not> failed (snd ev)) (steps (issued w w'))) \<and>
    (\<forall>e. r = Some e \<longrightarrow> Failed e \<in> snd ` set (steps (issued w w')))"
  using assms
proof (cases rule: CopyFile_outcome)
  case dst_opened
  then show ?thesis
  proof (cases rule: dst_openedE)
    case (1 si di fi src dst evs r4 post c2 c1)
    note ev = issued_append [OF 1(12)]
    note st = steps_copy_events(1) [OF 1(13)]
    note ne = copy_events_nonempty [OF 1(13)]
    have lst: "last evs \<in> set evs" using ne by simp
    from finish_cases [OF 1(14)] show ?thesis
    proof (elim disjE exE conjE)
      fix e assume a: "r4 = Some e" "r = Some e" "post = []"
      from copy_events_last [OF 1(13)] a have f: "snd (last evs) = Failed e" by simp
      then have "Failed e \<in> snd ` set evs" using lst by (metis imageI)
      moreover have "\<not> list_all (\<lambda>ev. \<not> failed (snd ev)) evs"
      proof -
        from f have "failed (snd (last evs))" by simp
        with lst show ?thesis unfolding list_all_iff by blast
      qed
      ultimately show ?thesis using a by (simp add: ev steps_append steps_simps st)
    next
      assume a: "r4 = None" "r = None" "post = [(CChmod d (fi_mode fi), Done), (CSync dst, Done)]"
      from copy_events_ok [OF 1(13) [unfolded a(1)]] a show ?thesis
        by (simp add: ev steps_append steps_simps st)
    qed (simp_all add: ev steps_append steps_simps st)
  qed
qed (simp_all add: issued_def steps_simps)

theorem CopyFile_ignores_close_errors_witness:
  "\<exists>w'. CopyFile ''source.txt'' ''destination.txt'' (with_faults [(12, EIO), (13, EIO)])
       = Some (None, w') \<and>
     closes (issued (with_faults [(12, EIO), (13, EIO)]) w')
       = [(CClose 2, Failed (PathError ''close'' ''destination.txt'' EIO)),
          (CClose 1, Failed (PathError ''close'' ''source.txt'' EIO))] \<and>
     list_all (\<lambda>ev. \<not> failed (snd ev)) (steps (issued (with_faults [(12, EIO), (13, EIO)]) w'))"
proof -
  let ?W = "with_faults [(12, EIO), (13, EIO)]"
  from run_obs [OF demo_close_faults] obtain w' where
    run: "CopyFile ''source.txt'' ''destination.txt'' ?W = Some (None, w')"
    and tr: "issued ?W w' =
       [(COpenFile ''source.txt'' 0 0, Handle 1),
        (CStat 1, Info \<lparr>fi_size = 5, fi_mode = 420\<rparr>),
        (COpenFile ''destination.txt'' 577 420, Handle 2),
        (CRead 1, Data [104, 101]), (CWrite 2 [104, 101], Done),
        (CRead 1, Data [108, 108]), (CWrite 2 [108, 108], Done),
        (CRead 1, Data [111]), (CWrite 2 [111], Done), (CRead 1, Data []),
        (CChmod ''destination.txt'' 420, Done), (CSync 2, Done),
        (CClose 2, Failed (PathError ''close'' ''destination.txt'' EIO)),
        (CClose 1, Failed (PathError ''close'' ''source.txt'' EIO))]"
    by blast
  note th = CopyFile_ignores_close_errors [OF run, THEN conjunct1]
  from th have ok: "list_all (\<lambda>ev. \<not> failed (snd ev)) (steps (issued ?W w'))" by simp
  have cl: "closes (issued ?W w')
       = [(CClose 2, Failed (PathError ''close'' ''destination.txt'' EIO)),
          (CClose 1, Failed (PathError ''close'' ''source.txt'' EIO))]"
    unfolding tr by (simp add: closes_simps)
  show ?thesis
    by (intro exI [of _ w'] conjI) (rule run cl ok)+
qed

end
